theory Spec2Isabelle
  imports Main
begin

section \<open>Machine integers of the kernels\<close>

text \<open>
  The C++ integers are modelled as \<^typ>\<open>int\<close> with every conversion written out:
  \<open>int\<close> and \<open>int32\<close> are 32-bit two's complement, \<open>int64\<close> is 64-bit two's
  complement, \<open>size_t\<close> and \<open>uint64\<close> are 64-bit unsigned.
\<close>

definition to_int32 :: "int \<Rightarrow> int" where
  "to_int32 x = signed_take_bit 31 x"

definition to_int64 :: "int \<Rightarrow> int" where
  "to_int64 x = signed_take_bit 63 x"

definition to_size_t :: "int \<Rightarrow> int" where
  "to_size_t x = take_bit 64 x"

section \<open>Status, tensors and the kernel context\<close>

text \<open>
  A \<open>Status\<close> is either OK or an error with a code and a message. \<open>None\<close> is
  \<open>Status::OK()\<close>. Functions that return a \<open>Status\<close> and fill an out-parameter return
  \<open>error + 'a\<close>. Messages keep the literal text of the source; the values that the
  source appends to a message with \<open>StrCat\<close> are left out. \<open>StdOutOfRange\<close> stands for
  the \<open>std::out_of_range\<close> that \<open>vector::at\<close> throws, and \<open>External\<close> for the
  codes of errors raised by the tensor runtime.
\<close>

datatype code = InvalidArgument | FailedPrecondition | Internal | AlreadyExists
  | DeadlineExceeded | StdOutOfRange | External nat

datatype error = Error code string

type_synonym Status = "error option"

abbreviation OK :: Status where "OK \<equiv> None"

fun error_code :: "error \<Rightarrow> code" where
  "error_code (Error c m) = c"

datatype DataType = DT_INT64 | DT_other nat

text \<open>
  Modelled from the spec: \<open>Tensor\<close> and \<open>TensorShape\<close> are declared in
  \<open>framework/tensor.h\<close> and \<open>framework/tensor_shape.h\<close>. A tensor is a typed array
  with a shape: its element type, its dimension sizes, and its elements in row-major
  order, which is the view \<open>shaped<T, 2>({1, NumElements()})\<close> that \<open>Concat\<close> works on.
  Element values are integers. No dimension size is negative.
\<close>

record Tensor =
  dtype :: DataType
  shape :: "nat list"
  flat :: "int list"

definition dims :: "Tensor \<Rightarrow> nat" where
  "dims t = length (shape t)"

definition dim_size :: "Tensor \<Rightarrow> nat \<Rightarrow> nat" where
  "dim_size t d = shape t ! d"

definition NumElements :: "Tensor \<Rightarrow> nat" where
  "NumElements t = prod_list (shape t)"

text \<open>The number of elements of one row: the product of the dimensions after the zeroth.\<close>

definition row_elements :: "Tensor \<Rightarrow> nat" where
  "row_elements t = prod_list (tl (shape t))"

text \<open>
  Modelled from the spec: \<open>Tensor::Slice(start, limit)\<close>, the rows \<open>[start, limit)\<close>
  along dimension 0.
\<close>

definition Slice :: "Tensor \<Rightarrow> nat \<Rightarrow> nat \<Rightarrow> Tensor" where
  "Slice t start limit =
     t\<lparr>shape := (shape t)[0 := limit - start],
       flat := take ((limit - start) * row_elements t) (drop (start * row_elements t) (flat t))\<rparr>"

text \<open>
  A tensor that has at least one dimension, as \<open>RegisterInput\<close> requires of the inputs
  of a task, and whose elements fill its shape.
\<close>

definition well_formed :: "Tensor \<Rightarrow> bool" where
  "well_formed t \<longleftrightarrow> shape t \<noteq> [] \<and> length (flat t) = NumElements t"

text \<open>
  Modelled from the spec: \<open>OpKernelContext\<close> is declared in \<open>framework/op_kernel.h\<close>.
  What the kernels use of it: its identity, the number of outputs of its op, its inputs,
  and the outcome of the allocations it is asked for, which the tensor runtime decides.
\<close>

record OpKernelContext =
  ctx_id :: nat
  num_outputs :: nat
  ctx_input :: "Tensor list"
  allocate_temp :: "DataType \<Rightarrow> nat list \<Rightarrow> Status"
  allocate_output :: "nat \<Rightarrow> nat list \<Rightarrow> Status"

text \<open>
  The parts of the tensor runtime that the kernels branch on: the element types listed
  by the macro \<open>TF_CALL_ALL_TYPES\<close>, and \<open>IsInnerDimsSizeAligned\<close>.
\<close>

record runtime =
  TF_CALL_ALL_TYPES :: "DataType \<Rightarrow> bool"
  IsInnerDimsSizeAligned :: "Tensor \<Rightarrow> bool"

section \<open>Concat\<close>

text \<open>
  The loop of \<open>Concat<T>\<close> over \<open>inputs\<close>: the rank and the inner dimensions of every
  input are compared with those of \<open>inputs[0]\<close>, inputs that have elements are
  collected in \<open>inputs_flat\<close>, and \<open>output_dim0\<close> adds up the zeroth dimensions.
\<close>

fun Concat_loop :: "Tensor \<Rightarrow> Tensor list \<Rightarrow> nat \<times> int list \<Rightarrow> error + nat \<times> int list" where
  "Concat_loop input0 [] (output_dim0, inputs_flat) = Inr (output_dim0, inputs_flat)"
| "Concat_loop input0 (input # rest) (output_dim0, inputs_flat) =
     (if dims input \<noteq> dims input0
      then Inl (Error InvalidArgument ''Ranks of all input tensors should match'')
      else if \<not> list_all (\<lambda>j. dim_size input j = dim_size input0 j) [1..<dims input0]
      then Inl (Error InvalidArgument ''Dimensions of inputs should match'')
      else Concat_loop input0 rest
             (output_dim0 + dim_size input 0,
              if NumElements input > 0 then inputs_flat @ flat input else inputs_flat))"

text \<open>
  \<open>Concat<T>\<close>. \<open>inputs[0]\<close> of an empty list is undefined in C++; the model says
  nothing about that case.
\<close>

definition Concat_T :: "OpKernelContext \<Rightarrow> DataType \<Rightarrow> Tensor list \<Rightarrow> error + Tensor" where
  "Concat_T ctx T inputs =
     (case inputs of input0 # _ \<Rightarrow>
        (case Concat_loop input0 inputs (0, []) of
           Inl e \<Rightarrow> Inl e
         | Inr (output_dim0, inputs_flat) \<Rightarrow>
             (let output_shape = (shape input0)[0 := output_dim0] in
              case allocate_temp ctx T output_shape of
                Some e \<Rightarrow> Inl e
              | None \<Rightarrow>
                  Inr \<lparr>dtype = T, shape = output_shape,
                       flat = (if prod_list output_shape > 0 then inputs_flat else [])\<rparr>)))"

text \<open>\<open>Concat\<close> with the element type taken from \<open>inputs[0]\<close>.\<close>

definition Concat :: "runtime \<Rightarrow> OpKernelContext \<Rightarrow> Tensor list \<Rightarrow> error + Tensor" where
  "Concat rt ctx inputs =
     (case inputs of input0 # _ \<Rightarrow>
        if TF_CALL_ALL_TYPES rt (dtype input0) then Concat_T ctx (dtype input0) inputs
        else Inl (Error InvalidArgument ''Unsupported data type: ''))"

section \<open>Tasks and batches\<close>

text \<open>
  Modelled from the spec: \<open>IncrementalBarrier\<close> is declared in
  \<open>util/incremental_barrier.h\<close>. A done-callback is either the callback of an op
  invocation or a token that \<open>Inc()\<close> returns for the barrier that \<open>SplitInputTask\<close>
  sets up around such a callback.
\<close>

datatype DoneCallback = Done nat | BarrierInc DoneCallback nat

text \<open>
  The fields \<open>context\<close> and \<open>output\<close> of the source are \<open>op_context\<close> and
  \<open>output_matrix\<close> here. \<open>output\<close> and \<open>status\<close> are shared pointers: the model keeps
  the address of the \<open>TensorMatrix\<close> and of the \<open>ThreadSafeStatus\<close>.
\<close>

record BatchTask =
  guid :: int
  propagated_context :: nat
  inputs :: "Tensor list"
  captured_inputs :: "Tensor list"
  op_context :: OpKernelContext
  done_callback :: DoneCallback
  split_index :: nat
  output_matrix :: nat
  status :: nat
  is_partial :: bool
  start_time :: int

text \<open>\<open>BatchTask::size()\<close>: the zeroth dimension of \<open>inputs[0]\<close>, as a \<open>size_t\<close>.\<close>

definition BatchTask_size :: "BatchTask \<Rightarrow> int" where
  "BatchTask_size task = to_size_t (int (dim_size (inputs task ! 0) 0))"

text \<open>
  Modelled from the spec: \<open>serving::Batch\<close> is declared in
  \<open>batching_util/batch_scheduler.h\<close>. A batch is the ordered collection of its tasks
  and its size is the sum of their sizes, a \<open>size_t\<close>.
\<close>

type_synonym Batch = "BatchTask list"

definition num_tasks :: "Batch \<Rightarrow> nat" where
  "num_tasks batch = length batch"

definition Batch_size :: "Batch \<Rightarrow> int" where
  "Batch_size batch = to_size_t (sum_list (map BatchTask_size batch))"

text \<open>\<open>ValidateBatch\<close>: every task has as many input edges as the first one.\<close>

fun ValidateBatch_loop :: "BatchTask \<Rightarrow> BatchTask list \<Rightarrow> Status" where
  "ValidateBatch_loop task0 [] = OK"
| "ValidateBatch_loop task0 (task # rest) =
     (if length (inputs task) \<noteq> length (inputs task0)
      then Some (Error InvalidArgument ''Batching inputs must have equal number of edges'')
      else ValidateBatch_loop task0 rest)"

definition ValidateBatch :: "Batch \<Rightarrow> Status" where
  "ValidateBatch batch = ValidateBatch_loop (batch ! 0) batch"

text \<open>
  The loop of \<open>RegisterInput\<close> over the tensors of the input list \<open>in_tensors\<close>,
  which fills \<open>inputs\<close> of the new task. It rejects a tensor without dimensions and,
  when the list has two tensors or more, a tensor whose zeroth dimension is not that of
  \<open>tensors[0]\<close>.
\<close>

fun RegisterInput_loop :: "Tensor list \<Rightarrow> Tensor list \<Rightarrow> Tensor list \<Rightarrow> error + Tensor list" where
  "RegisterInput_loop tensors [] task_inputs = Inr task_inputs"
| "RegisterInput_loop tensors (tensor # rest) task_inputs =
     (if dims tensor = 0
      then Inl (Error InvalidArgument
             ''Batching input tensors must have at least one dimension'')
      else if length tensors \<ge> 2 \<and> dim_size tensor 0 \<noteq> dim_size (tensors ! 0) 0
      then Inl (Error InvalidArgument
             ''Batching input tensors supplied in a given op invocation must have equal 0th-dimension size'')
      else RegisterInput_loop tensors rest (task_inputs @ [tensor]))"

definition RegisterInput_inputs :: "Tensor list \<Rightarrow> error + Tensor list" where
  "RegisterInput_inputs tensors = RegisterInput_loop tensors tensors []"

section \<open>BatchResource: rounding a batch size\<close>

text \<open>
  The \<open>for\<close> loop of \<open>RoundToLowestAllowedBatchSize\<close> over \<open>allowed_batch_sizes_\<close>:
  the first entry that is at least \<open>batch_size\<close> is returned; when the loop falls
  through, the error is logged and \<open>batch_size\<close> itself is returned.
\<close>

fun RoundToLowestAllowedBatchSize_loop :: "int list \<Rightarrow> int \<Rightarrow> int" where
  "RoundToLowestAllowedBatchSize_loop [] batch_size = batch_size"
| "RoundToLowestAllowedBatchSize_loop (allowed_size # rest) batch_size =
     (if allowed_size \<ge> batch_size then allowed_size
      else RoundToLowestAllowedBatchSize_loop rest batch_size)"

definition RoundToLowestAllowedBatchSize :: "int list \<Rightarrow> int \<Rightarrow> int" where
  "RoundToLowestAllowedBatchSize allowed_batch_sizes batch_size =
     (if allowed_batch_sizes = [] then batch_size
      else RoundToLowestAllowedBatchSize_loop allowed_batch_sizes batch_size)"

section \<open>BatchResource: concatenating the inputs of a batch\<close>

text \<open>
  \<open>padded_batch_size\<close> and \<open>padding_amount\<close> of \<open>ConcatInputTensors\<close>, both \<open>const int\<close>.
  \<open>batch.size()\<close> is a \<open>size_t\<close>: it is narrowed to \<open>int\<close> for the call, and the
  difference is computed on \<open>size_t\<close> and narrowed to \<open>int\<close> again.
\<close>

definition padded_batch_size :: "int list \<Rightarrow> Batch \<Rightarrow> int" where
  "padded_batch_size allowed_batch_sizes batch =
     RoundToLowestAllowedBatchSize allowed_batch_sizes (to_int32 (Batch_size batch))"

definition padding_amount :: "int list \<Rightarrow> Batch \<Rightarrow> int" where
  "padding_amount allowed_batch_sizes batch =
     to_int32 (to_size_t (to_size_t (padded_batch_size allowed_batch_sizes batch) - Batch_size batch))"

text \<open>\<open>vector::at\<close>, which throws when the index is out of range.\<close>

definition at :: "'a list \<Rightarrow> nat \<Rightarrow> error + 'a" where
  "at xs i = (if i < length xs then Inr (xs ! i) else Inl (Error StdOutOfRange ''vector::at''))"

text \<open>The inner loop over the tasks: \<open>to_concatenate.push_back(batch.task(task_idx).inputs.at(i))\<close>.\<close>

fun gather_inputs :: "BatchTask list \<Rightarrow> nat \<Rightarrow> error + Tensor list" where
  "gather_inputs [] i = Inr []"
| "gather_inputs (task # rest) i =
     (case at (inputs task) i of
        Inl e \<Rightarrow> Inl e
      | Inr t \<Rightarrow> (case gather_inputs rest i of Inl e \<Rightarrow> Inl e | Inr ts \<Rightarrow> Inr (t # ts)))"

text \<open>
  The padding of input edge \<open>i\<close>: nothing when \<open>padding_amount\<close> is not positive,
  otherwise \<open>padding_amount\<close> copies of the first row of the first task's tensor, and
  an error when that tensor has no row.
\<close>

definition padding_tensors :: "int \<Rightarrow> Batch \<Rightarrow> nat \<Rightarrow> error + Tensor list" where
  "padding_tensors padding batch i =
     (if padding > 0 then
        (case at (inputs (batch ! 0)) i of
           Inl e \<Rightarrow> Inl e
         | Inr padding_source \<Rightarrow>
             if dim_size padding_source 0 = 0
             then Inl (Error InvalidArgument
               ''Cannot use an empty tensor with zero rows as padding when batching.'')
             else Inr (replicate (nat padding)
               (if dim_size padding_source 0 = 1 then padding_source
                else Slice padding_source 0 1)))
      else Inr [])"

text \<open>The body of the loop over the input edges, for edge \<open>i\<close>.\<close>

definition concat_edge :: "runtime \<Rightarrow> int \<Rightarrow> Batch \<Rightarrow> OpKernelContext \<Rightarrow> nat \<Rightarrow> error + Tensor" where
  "concat_edge rt padding batch ctx i =
     (case gather_inputs batch i of
        Inl e \<Rightarrow> Inl e
      | Inr to_concatenate \<Rightarrow>
          (case padding_tensors padding batch i of
             Inl e \<Rightarrow> Inl e
           | Inr pad \<Rightarrow> Concat rt ctx (to_concatenate @ pad)))"

text \<open>The loop over the input edges: it stops at the first edge that fails.\<close>

fun concat_edges :: "runtime \<Rightarrow> int \<Rightarrow> Batch \<Rightarrow> OpKernelContext \<Rightarrow> nat list \<Rightarrow> error + Tensor list" where
  "concat_edges rt padding batch ctx [] = Inr []"
| "concat_edges rt padding batch ctx (i # edges) =
     (case concat_edge rt padding batch ctx i of
        Inl e \<Rightarrow> Inl e
      | Inr concatenated_tensor \<Rightarrow>
          (case concat_edges rt padding batch ctx edges of
             Inl e \<Rightarrow> Inl e
           | Inr ts \<Rightarrow> Inr (concatenated_tensor # ts)))"

text \<open>
  \<open>ConcatInputTensors\<close>. \<open>num_inputs\<close> is the \<open>int\<close> that \<open>batch.task(0).inputs.size()\<close>
  narrows to; the recording of the metrics has no effect on the result.
\<close>

definition ConcatInputTensors ::
  "runtime \<Rightarrow> int list \<Rightarrow> Batch \<Rightarrow> OpKernelContext \<Rightarrow> error + Tensor list" where
  "ConcatInputTensors rt allowed_batch_sizes batch ctx =
     (if num_tasks batch = 0 then Inl (Error InvalidArgument ''Empty batch.'')
      else
        (let padding = padding_amount allowed_batch_sizes batch;
             num_inputs = to_int32 (int (length (inputs (batch ! 0))))
         in concat_edges rt padding batch ctx [0..<nat num_inputs]))"

section \<open>BatchResource: the index tensor\<close>

text \<open>
  The loop of \<open>EmitIndexTensor\<close>. \<open>offset\<close> is a \<open>size_t\<close>; the entries of the index
  are \<open>int64\<close>, so \<open>offset\<close> and \<open>offset + task.size()\<close> are converted when they are
  stored. The result lists the rows of the index.
\<close>

fun EmitIndexTensor_loop :: "BatchTask list \<Rightarrow> int \<Rightarrow> int list list" where
  "EmitIndexTensor_loop [] offset = []"
| "EmitIndexTensor_loop (task # rest) offset =
     [guid task, to_int64 offset, to_int64 (to_size_t (offset + BatchTask_size task))]
       # EmitIndexTensor_loop rest (to_size_t (offset + BatchTask_size task))"

text \<open>
  \<open>EmitIndexTensor\<close>: the index is allocated as output \<open>output_index\<close> of \<open>context\<close>
  with shape \<open>(num_tasks, 3)\<close> and then filled in. The model returns the tensor that the
  output holds when the function returns OK.
\<close>

definition EmitIndexTensor :: "OpKernelContext \<Rightarrow> Batch \<Rightarrow> nat \<Rightarrow> error + Tensor" where
  "EmitIndexTensor ctx batch output_index =
     (let index_shape = [num_tasks batch, 3] in
      case allocate_output ctx output_index index_shape of
        Some e \<Rightarrow> Inl e
      | None \<Rightarrow>
          Inr \<lparr>dtype = DT_INT64, shape = index_shape,
               flat = concat (EmitIndexTensor_loop batch 0)\<rparr>)"

text \<open>
  The entry in row \<open>i\<close> and column \<open>j\<close> of an index tensor, through the view
  \<open>shaped<int64, 2>({n, 3})\<close> that the kernels read and write it by.
\<close>

definition index_entry :: "Tensor \<Rightarrow> nat \<Rightarrow> nat \<Rightarrow> int" where
  "index_entry t i j = flat t ! (i * 3 + j)"

section \<open>BatchResource: processing a batch with a function\<close>

text \<open>
  The objects that the processing of a batch writes to. \<open>statuses\<close> and \<open>matrices\<close>
  hold the \<open>ThreadSafeStatus\<close> and \<open>TensorMatrix\<close> objects by address. The calls made
  on kernel contexts and the invocations of done-callbacks are recorded, in order, in
  \<open>trace\<close>.
\<close>

datatype event =
    SetStatus nat Status
  | SetOutput nat nat Tensor
  | CtxFailureWithWarning nat error
  | Invoke DoneCallback

record world =
  statuses :: "nat \<Rightarrow> Status"
  matrices :: "nat \<Rightarrow> Tensor list list"
  trace :: "event list"

text \<open>
  \<open>ThreadSafeStatus::Update\<close>: nothing happens when \<open>new_status\<close> is OK; otherwise
  \<open>Status::Update\<close> retains the first error, as the comment of the class says: the
  current status is replaced when it is OK.
\<close>

definition ThreadSafeStatus_Update :: "Status \<Rightarrow> Status \<Rightarrow> Status" where
  "ThreadSafeStatus_Update current_status new_status =
     (if new_status = OK then current_status
      else if current_status = OK then new_status else current_status)"

definition emit :: "event \<Rightarrow> world \<Rightarrow> world" where
  "emit ev w = w\<lparr>trace := trace w @ [ev]\<rparr>"

text \<open>
  The lambda \<open>cleanup_fn\<close> of \<open>ProcessFuncBatch\<close>: its loop over the tasks, and the flag
  \<open>cleanup_done\<close> that makes a second call do nothing.
\<close>

fun cleanup_loop :: "Status \<Rightarrow> BatchTask list \<Rightarrow> world \<Rightarrow> world" where
  "cleanup_loop st [] w = w"
| "cleanup_loop st (task # rest) w =
     (let w1 = (if is_partial task
                then w\<lparr>statuses := (statuses w)
                       (status task := ThreadSafeStatus_Update (statuses w (status task)) st)\<rparr>
                else emit (SetStatus (ctx_id (op_context task)) st) w);
          w2 = emit (Invoke (done_callback task)) w1
      in cleanup_loop st rest w2)"

definition cleanup_fn :: "Batch \<Rightarrow> Status \<Rightarrow> bool \<times> world \<Rightarrow> bool \<times> world" where
  "cleanup_fn batch st cw =
     (case cw of (cleanup_done, w) \<Rightarrow>
        if cleanup_done then (cleanup_done, w) else (True, cleanup_loop st batch w))"

text \<open>
  \<open>padding_size\<close> and \<open>task_sizes_plus_optional_padding\<close> of \<open>SplitOutputTensors\<close>. The
  entries of the vector are \<open>int64\<close>.
\<close>

definition padding_size :: "int list \<Rightarrow> Batch \<Rightarrow> int" where
  "padding_size allowed_batch_sizes batch =
     to_int32 (to_size_t
       (to_size_t (RoundToLowestAllowedBatchSize allowed_batch_sizes (to_int32 (Batch_size batch)))
        - Batch_size batch))"

definition task_sizes_plus_optional_padding :: "int list \<Rightarrow> Batch \<Rightarrow> int list" where
  "task_sizes_plus_optional_padding allowed_batch_sizes batch =
     map (\<lambda>task. to_int64 (BatchTask_size task)) batch
     @ (if padding_size allowed_batch_sizes batch > 0
        then [padding_size allowed_batch_sizes batch] else [])"

text \<open>
  The inner loop of \<open>SplitOutputTensors\<close> over the tasks, for output \<open>i\<close>: a partial
  task stores its piece in its row of the shared matrix, any other task sets it as
  output \<open>i\<close> of its context. Indexing a vector out of range is undefined in C++; the
  update of the model leaves the matrix as it is there.
\<close>

fun scatter_output :: "nat \<Rightarrow> Tensor list \<Rightarrow> nat \<Rightarrow> BatchTask list \<Rightarrow> world \<Rightarrow> world" where
  "scatter_output i split_tensor j [] w = w"
| "scatter_output i split_tensor j (task # rest) w =
     scatter_output i split_tensor (Suc j) rest
       (if is_partial task
        then w\<lparr>matrices := (matrices w)
               (output_matrix task :=
                  (matrices w (output_matrix task))
                    [split_index task :=
                       (matrices w (output_matrix task) ! split_index task)
                         [i := split_tensor ! j]])\<rparr>
        else emit (SetOutput (ctx_id (op_context task)) i (split_tensor ! j)) w)"

text \<open>
  The loop of \<open>SplitOutputTensors\<close> over the combined outputs. \<open>tensor_Split\<close> is
  \<open>tensor::Split\<close> of \<open>tensor_util.h\<close>, taken as a parameter.
\<close>

fun split_outputs_loop ::
  "(Tensor \<Rightarrow> int list \<Rightarrow> error + Tensor list) \<Rightarrow> int list \<Rightarrow> Batch \<Rightarrow>
   nat \<Rightarrow> Tensor list \<Rightarrow> world \<Rightarrow> Status \<times> world" where
  "split_outputs_loop tensor_Split allowed_batch_sizes batch i [] w = (OK, w)"
| "split_outputs_loop tensor_Split allowed_batch_sizes batch i (output_tensor # rest) w =
     (if dims output_tensor = 0
      then (Some (Error FailedPrecondition ''Batched output tensor has 0 dimensions''), w)
      else if int (dim_size output_tensor 0) \<noteq>
              to_int64 (to_size_t (Batch_size batch
                 + to_size_t (padding_size allowed_batch_sizes batch)))
      then (Some (Error FailedPrecondition
              ''Batched output tensor's 0th dimension does not equal the sum of the 0th dimension sizes of the input tensors''), w)
      else
        (case tensor_Split output_tensor
                (task_sizes_plus_optional_padding allowed_batch_sizes batch) of
           Inl e \<Rightarrow> (Some (Error Internal ''Tensor split operation failed: ''), w)
         | Inr split_tensor \<Rightarrow>
             if length split_tensor \<noteq>
                length (task_sizes_plus_optional_padding allowed_batch_sizes batch)
             then (Some (Error Internal
                     ''Tensor split operation did not work as expected; got ''), w)
             else split_outputs_loop tensor_Split allowed_batch_sizes batch (Suc i) rest
                    (scatter_output i split_tensor 0 batch w)))"

definition SplitOutputTensors ::
  "(Tensor \<Rightarrow> int list \<Rightarrow> error + Tensor list) \<Rightarrow> int list \<Rightarrow> Tensor list \<Rightarrow> Batch \<Rightarrow>
   world \<Rightarrow> Status \<times> world" where
  "SplitOutputTensors tensor_Split allowed_batch_sizes combined_outputs batch w =
     (if num_tasks batch < 1
      then (Some (Error Internal ''Batch size expected to be positive; was ''), w)
      else if to_int32 (int (length combined_outputs))
              \<noteq> int (num_outputs (op_context (batch ! 0)))
      then (Some (Error Internal ''Wrong number of batched output tensors''), w)
      else split_outputs_loop tensor_Split allowed_batch_sizes batch 0 combined_outputs w)"

text \<open>
  \<open>ProcessFuncBatch\<close>. \<open>Run\<close> is \<open>flib->Run\<close> with the function handle: the function
  runtime completes a run once, with a status and the combined outputs, and the lambda
  passed to it runs then. Before \<open>finally.release()\<close> every \<open>return\<close> runs \<open>cleanup_fn\<close>
  with the current \<open>status\<close>; after it the lambda does, through \<open>run_finally\<close>, with
  \<open>final_status\<close>. The C++ function returns nothing; the model returns, with the new
  world, the status that \<open>cleanup_fn\<close> was called with (OK for an empty batch, where
  it is not called).
\<close>

definition ProcessFuncBatch ::
  "runtime \<Rightarrow> (Tensor \<Rightarrow> int list \<Rightarrow> error + Tensor list) \<Rightarrow>
   (Tensor list \<Rightarrow> Status \<times> Tensor list) \<Rightarrow> int list \<Rightarrow> Batch \<Rightarrow> world \<Rightarrow>
   Status \<times> world" where
  "ProcessFuncBatch rt tensor_Split Run allowed_batch_sizes batch w =
     (if batch = [] then (OK, w)
      else
        (let last_task = batch ! (num_tasks batch - 1);
             last_task_context = op_context last_task
         in case ValidateBatch batch of
              Some e \<Rightarrow> (Some e, snd (cleanup_fn batch (Some e) (False, w)))
            | None \<Rightarrow>
               (case ConcatInputTensors rt allowed_batch_sizes batch last_task_context of
                  Inl e \<Rightarrow> (Some e, snd (cleanup_fn batch (Some e) (False, w)))
                | Inr concatenated_tensors \<Rightarrow>
                   (let args = concatenated_tensors @ captured_inputs last_task in
                    case Run args of
                      (Some e, combined_outputs) \<Rightarrow>
                         (Some e, snd (cleanup_fn batch (Some e) (False, w)))
                    | (None, combined_outputs) \<Rightarrow>
                        (case SplitOutputTensors tensor_Split allowed_batch_sizes
                                combined_outputs batch w of
                           (final_status, w') \<Rightarrow>
                             (final_status,
                              snd (cleanup_fn batch final_status (False, w'))))))))"

text \<open>The done-callbacks invoked in a sequence of events, in order.\<close>

fun invoked :: "event \<Rightarrow> DoneCallback list" where
  "invoked (Invoke cb) = [cb]"
| "invoked (SetStatus c st) = []"
| "invoked (SetOutput c i t) = []"
| "invoked (CtxFailureWithWarning c e) = []"

definition done_callbacks_invoked :: "event list \<Rightarrow> DoneCallback list" where
  "done_callbacks_invoked evs = concat (map invoked evs)"

section \<open>Validation of the allowed batch sizes\<close>

text \<open>
  The loop of \<open>BatchFunctionKernel::ValidateAllowedBatchSizes\<close>, at index \<open>i\<close> of a
  vector of \<open>n\<close> entries, with \<open>last_size\<close> the previous entry; the entry \<open>size\<close> of
  the source is \<open>allowed_size\<close> here.
\<close>

fun ValidateAllowedBatchSizes_loop ::
  "bool \<Rightarrow> int \<Rightarrow> nat \<Rightarrow> nat \<Rightarrow> int \<Rightarrow> int list \<Rightarrow> Status" where
  "ValidateAllowedBatchSizes_loop enable_large_batch_splitting max_batch_size n i last_size [] = OK"
| "ValidateAllowedBatchSizes_loop enable_large_batch_splitting max_batch_size n i last_size
     (allowed_size # rest) =
     (if i > 0 \<and> allowed_size \<le> last_size
      then Some (Error InvalidArgument
             ''allowed_batch_sizes entries must be monotonically increasing'')
      else if \<not> enable_large_batch_splitting \<and> i = n - 1 \<and> allowed_size \<noteq> max_batch_size
      then Some (Error InvalidArgument
             ''final entry in allowed_batch_sizes must equal max_batch_size when enable_large_batch_splitting is False'')
      else ValidateAllowedBatchSizes_loop enable_large_batch_splitting max_batch_size n
             (Suc i) allowed_size rest)"

definition ValidateAllowedBatchSizes :: "bool \<Rightarrow> int \<Rightarrow> int list \<Rightarrow> Status" where
  "ValidateAllowedBatchSizes enable_large_batch_splitting max_batch_size allowed_batch_sizes =
     (if allowed_batch_sizes = [] then OK
      else ValidateAllowedBatchSizes_loop enable_large_batch_splitting max_batch_size
             (length allowed_batch_sizes) 0 0 allowed_batch_sizes)"

text \<open>
  The queue options that \<open>BatchResource::Create\<close> fills in. A field that \<open>Create\<close> does
  not assign keeps the default of the scheduler's options: \<open>None\<close>.
\<close>

record QueueOptions =
  input_batch_size_limit :: int
  max_enqueued_batches :: int
  batch_timeout_micros :: int
  enable_large_batch_splitting :: bool
  split_input_task_func :: bool
  max_execution_batch_size :: "int option"

record BatchResource =
  batcher_queue_options :: QueueOptions
  member_allowed_batch_sizes :: "int list"
  member_fhandle :: nat

text \<open>
  \<open>BatchResource::Create\<close>. \<open>Batcher_Create\<close> is the status of the creation of the
  shared scheduler.
\<close>

definition Create ::
  "Status \<Rightarrow> int \<Rightarrow> int \<Rightarrow> int \<Rightarrow> int list \<Rightarrow> nat \<Rightarrow> bool \<Rightarrow> error + BatchResource" where
  "Create Batcher_Create max_batch_size batch_timeout max_enqueued allowed_batch_sizes fhandle
     enable_splitting =
     (case Batcher_Create of
        Some e \<Rightarrow> Inl e
      | None \<Rightarrow>
          Inr \<lparr>batcher_queue_options =
                 \<lparr>input_batch_size_limit = max_batch_size,
                  max_enqueued_batches = max_enqueued,
                  batch_timeout_micros = batch_timeout,
                  enable_large_batch_splitting = enable_splitting,
                  split_input_task_func = enable_splitting,
                  max_execution_batch_size =
                    (if enable_splitting
                     then (if allowed_batch_sizes = [] then Some max_batch_size
                           else Some (last allowed_batch_sizes))
                     else None)\<rparr>,
               member_allowed_batch_sizes = allowed_batch_sizes,
               member_fhandle = fhandle\<rparr>)"

section \<open>Split\<close>

text \<open>
  The pieces of \<open>input\<close> along dimension 0 from row \<open>position\<close> on, one per entry
  of \<open>sizes\<close>: what the loops of \<open>SplitEasyCases\<close> and \<open>SplitCPU\<close> produce, the first
  as slices and the second as copies. \<open>Tensor::Slice\<close> and \<open>TensorShape::set_dim\<close> take
  sizes that are not negative.
\<close>

fun pieces :: "Tensor \<Rightarrow> nat \<Rightarrow> int list \<Rightarrow> Tensor list" where
  "pieces input position [] = []"
| "pieces input position (n # sizes) =
     Slice input position (position + nat n) # pieces input (position + nat n) sizes"

text \<open>
  \<open>SplitEasyCases\<close>: the outputs and the flag \<open>done\<close>. In the case that is not easy no
  output is written.
\<close>

definition SplitEasyCases :: "runtime \<Rightarrow> Tensor \<Rightarrow> int list \<Rightarrow> error + Tensor list \<times> bool" where
  "SplitEasyCases rt input sizes =
     (if sum_list sizes > int (dim_size input 0)
      then Inl (Error InvalidArgument
             ''Sum of split sizes must not exceed dim0-size of input tensor'')
      else if length sizes = 1 \<and> sizes ! 0 = int (dim_size input 0) then Inr ([input], True)
      else if IsInnerDimsSizeAligned rt input then Inr (pieces input 0 sizes, True)
      else Inr ([], False))"

text \<open>\<open>SplitCPU\<close>: every output is allocated before it is filled.\<close>

fun SplitCPU_loop :: "OpKernelContext \<Rightarrow> Tensor \<Rightarrow> nat \<Rightarrow> int list \<Rightarrow> error + Tensor list" where
  "SplitCPU_loop ctx input position [] = Inr []"
| "SplitCPU_loop ctx input position (n # sizes) =
     (case allocate_temp ctx (dtype input) ((shape input)[0 := nat n]) of
        Some e \<Rightarrow> Inl e
      | None \<Rightarrow>
          (case SplitCPU_loop ctx input (position + nat n) sizes of
             Inl e \<Rightarrow> Inl e
           | Inr outputs \<Rightarrow> Inr (Slice input position (position + nat n) # outputs)))"

definition SplitCPU :: "OpKernelContext \<Rightarrow> Tensor \<Rightarrow> int list \<Rightarrow> error + Tensor list" where
  "SplitCPU ctx input sizes = SplitCPU_loop ctx input 0 sizes"

definition Split_T :: "runtime \<Rightarrow> OpKernelContext \<Rightarrow> Tensor \<Rightarrow> int list \<Rightarrow> error + Tensor list" where
  "Split_T rt ctx input sizes =
     (case SplitEasyCases rt input sizes of
        Inl e \<Rightarrow> Inl e
      | Inr (outputs, easy_cases_done) \<Rightarrow>
          if easy_cases_done then Inr outputs else SplitCPU ctx input sizes)"

text \<open>\<open>Split\<close> with the element type taken from \<open>input\<close>.\<close>

definition Split :: "runtime \<Rightarrow> OpKernelContext \<Rightarrow> Tensor \<Rightarrow> int list \<Rightarrow> error + Tensor list" where
  "Split rt ctx input sizes =
     (if TF_CALL_ALL_TYPES rt (dtype input) then Split_T rt ctx input sizes
      else Inl (Error InvalidArgument ''Unsupported data type: ''))"

section \<open>BatchResource: splitting an input task\<close>

text \<open>
  The loop of \<open>SplitInputTask\<close> that fills \<open>output_task_sizes\<close> after the open batch's
  slot. \<open>left_task_size\<close> and \<open>max_batch_size\<close> are \<open>int\<close>. The loop does not end when
  \<open>max_batch_size\<close> is 0: the result is \<open>None\<close> then.
\<close>

partial_function (option) output_task_sizes_loop :: "int \<Rightarrow> int \<Rightarrow> int list \<Rightarrow> int list option" where
  "output_task_sizes_loop left_task_size max_batch_size output_task_sizes =
     (if left_task_size > 0
      then output_task_sizes_loop (to_int32 (left_task_size - max_batch_size)) max_batch_size
             (output_task_sizes @ [min left_task_size max_batch_size])
      else Some output_task_sizes)"

text \<open>
  \<open>output_task_sizes\<close> of \<open>SplitInputTask\<close>. \<open>input_task_size\<close> is the \<open>int64\<close> that
  \<open>input_task.size()\<close> converts to; the difference to the slot is narrowed to \<open>int\<close>.
\<close>

definition output_task_sizes :: "BatchTask \<Rightarrow> int \<Rightarrow> int \<Rightarrow> int list option" where
  "output_task_sizes input_task open_batch_remaining_slot max_batch_size =
     (let input_task_size = to_int64 (BatchTask_size input_task) in
      output_task_sizes_loop
        (to_int32 (to_int64 (input_task_size - open_batch_remaining_slot)))
        max_batch_size
        (if open_batch_remaining_slot > 0 then [open_batch_remaining_slot] else []))"

text \<open>\<open>vector::resize\<close>, and a default-constructed tensor, which has no element.\<close>

definition resize :: "nat \<Rightarrow> 'a \<Rightarrow> 'a list \<Rightarrow> 'a list" where
  "resize n d xs = take n xs @ replicate (n - length xs) d"

definition default_Tensor :: Tensor where
  "default_Tensor = \<lparr>dtype = DT_other 0, shape = [0], flat = []\<rparr>"

text \<open>
  The output task with index \<open>i\<close>, before its inputs are filled in. Its done-callback
  is a token of the barrier around the done-callback of the input task; the barrier's
  own callback, which merges the rows of the output matrix, runs when all tokens are
  released and is not part of \<open>SplitInputTask\<close>'s result.
\<close>

definition new_split_task :: "BatchTask \<Rightarrow> nat \<Rightarrow> BatchTask" where
  "new_split_task input_task i =
     \<lparr>guid = guid input_task,
      propagated_context = propagated_context input_task,
      inputs = [],
      captured_inputs = captured_inputs input_task,
      op_context = op_context input_task,
      done_callback = BarrierInc (done_callback input_task) i,
      split_index = i,
      output_matrix = output_matrix input_task,
      status = status input_task,
      is_partial = True,
      start_time = start_time input_task\<rparr>"

text \<open>
  The loop over the input tensors: each is split by \<open>output_task_sizes\<close> and piece \<open>j\<close>
  is appended to the inputs of output task \<open>j\<close>.
\<close>

fun distribute_inputs ::
  "runtime \<Rightarrow> OpKernelContext \<Rightarrow> int list \<Rightarrow> Tensor list \<Rightarrow> BatchTask list \<Rightarrow>
   error + BatchTask list" where
  "distribute_inputs rt ctx sizes [] output_tasks = Inr output_tasks"
| "distribute_inputs rt ctx sizes (input_tensor # rest) output_tasks =
     (case Split rt ctx input_tensor sizes of
        Inl e \<Rightarrow> Inl (Error Internal ''When splitting input, Tensor split operation failed: '')
      | Inr split_tensors \<Rightarrow>
          if length split_tensors \<noteq> length sizes
          then Inl (Error Internal
                 ''When splitting input, tensor split operation did not work as expected; got '')
          else distribute_inputs rt ctx sizes rest
                 (map (\<lambda>(output_task, t). output_task\<lparr>inputs := inputs output_task @ [t]\<rparr>)
                    (zip output_tasks split_tensors)))"

text \<open>
  \<open>SplitInputTask\<close>: \<open>None\<close> when the loop over the sizes does not end; otherwise the
  status with the output tasks, and the world in which the shared output matrix of the
  input task has one row per output task and one column per output of the op.
\<close>

definition SplitInputTask ::
  "runtime \<Rightarrow> BatchTask \<Rightarrow> int \<Rightarrow> int \<Rightarrow> world \<Rightarrow> ((error + BatchTask list) \<times> world) option" where
  "SplitInputTask rt input_task open_batch_remaining_slot max_batch_size w =
     (case output_task_sizes input_task open_batch_remaining_slot max_batch_size of
        None \<Rightarrow> None
      | Some sizes \<Rightarrow>
          (let output_task_num = nat (to_int32 (int (length sizes)));
               rows = resize output_task_num [] (matrices w (output_matrix input_task));
               w' = w\<lparr>matrices := (matrices w)
                      (output_matrix input_task :=
                         map (resize (num_outputs (op_context input_task)) default_Tensor)
                           rows)\<rparr>;
               output_tasks = map (new_split_task input_task) [0..<output_task_num]
           in Some (distribute_inputs rt (op_context input_task) sizes (inputs input_task)
                      output_tasks, w')))"

section \<open>Hash maps\<close>

text \<open>
  An \<open>unordered_map\<close> is a list of its entries with distinct keys. The order in which
  the C++ map is iterated is unspecified; the model iterates in the order of the list.
\<close>

definition keys :: "('k \<times> 'v) list \<Rightarrow> 'k set" where
  "keys m = fst ` set m"

text \<open>\<open>find\<close>.\<close>

definition find_entry :: "('k \<times> 'v) list \<Rightarrow> 'k \<Rightarrow> 'v option" where
  "find_entry m k = map_of m k"

text \<open>\<open>erase\<close>.\<close>

definition erase :: "'k \<Rightarrow> ('k \<times> 'v) list \<Rightarrow> ('k \<times> 'v) list" where
  "erase k m = filter (\<lambda>entry. fst entry \<noteq> k) m"

text \<open>
  \<open>emplace\<close>: the map, and whether the entry was inserted. Nothing changes when the
  key is there already.
\<close>

definition emplace :: "'k \<Rightarrow> 'v \<Rightarrow> ('k \<times> 'v) list \<Rightarrow> ('k \<times> 'v) list \<times> bool" where
  "emplace k v m = (if map_of m k = None then (m @ [(k, v)], True) else (m, False))"

section \<open>UnbatchResource\<close>







definition index_keys :: "Tensor \<Rightarrow> int list" where
  "index_keys batch_index_t =
     map (\<lambda>i. index_entry batch_index_t i 0) [0..<dim_size batch_index_t 0]"











section \<open>UnbatchGradResource\<close>

text \<open>
  A still-incomplete batch. \<open>missing_tensors\<close> is an \<open>unordered_set\<close>: a list without
  repetition, iterated in the order of the list.
\<close>

record GradBatch =
  missing_tensors :: "int list"
  batch_context :: OpKernelContext
  batch_done :: DoneCallback

record UnbatchGradResource =
  available_batches :: "(int \<times> GradBatch) list"
  available_tensors :: "(int \<times> Tensor) list"
  desired_tensor_to_batch_map :: "(int \<times> int) list"

text \<open>
  The loop of \<open>OutputBatch\<close> over the rows of the index: the tensor of each row key
  is collected and erased from \<open>available_tensors\<close>.
\<close>

fun collect_tensors ::
  "int list \<Rightarrow> (int \<times> Tensor) list \<Rightarrow> Tensor list \<Rightarrow> Status \<times> (int \<times> Tensor) list \<times> Tensor list" where
  "collect_tensors [] available tensors = (OK, available, tensors)"
| "collect_tensors (k # row_keys) available tensors =
     (case find_entry available k of
        None \<Rightarrow> (Some (Error Internal ''bad bookkeeping of available tensors.''),
                 available, tensors)
      | Some t \<Rightarrow> collect_tensors row_keys (erase k available) (tensors @ [t]))"

text \<open>
  \<open>OutputBatch\<close>: the status, the resource afterwards, and the events. \<open>tensors[0]\<close> of
  an empty vector is undefined in C++; the model says nothing about that case.
\<close>

definition OutputBatch ::
  "runtime \<Rightarrow> OpKernelContext \<Rightarrow> DoneCallback \<Rightarrow> UnbatchGradResource \<Rightarrow>
   Status \<times> UnbatchGradResource \<times> event list" where
  "OutputBatch rt ctx done ugr =
     (let batch_index_t = ctx_input ctx ! 1 in
      case collect_tensors (index_keys batch_index_t) (available_tensors ugr) [] of
        (Some e, available, tensors) \<Rightarrow> (Some e, ugr\<lparr>available_tensors := available\<rparr>, [])
      | (None, available, tensors) \<Rightarrow>
          (case tensors of t0 # _ \<Rightarrow>
             if TF_CALL_ALL_TYPES rt (dtype t0)
             then (case Concat_T ctx (dtype t0) tensors of
                     Inl e \<Rightarrow> (Some e, ugr\<lparr>available_tensors := available\<rparr>, [])
                   | Inr concatenated_tensor \<Rightarrow>
                       (OK, ugr\<lparr>available_tensors := available\<rparr>,
                        [SetOutput (ctx_id ctx) 0 concatenated_tensor, Invoke done]))
             else (Some (Error InvalidArgument ''Unsupported data type: ''),
                   ugr\<lparr>available_tensors := available\<rparr>, [])))"

text \<open>The keys of the rows of the index that have no available tensor, without repetition.\<close>

fun collect_missing :: "int list \<Rightarrow> (int \<times> Tensor) list \<Rightarrow> int list \<Rightarrow> int list" where
  "collect_missing [] available missing = missing"
| "collect_missing (k # row_keys) available missing =
     collect_missing row_keys available
       (if find_entry available k = None \<and> k \<notin> set missing then missing @ [k] else missing)"

text \<open>
  The loop that enters the missing keys into \<open>desired_tensor_to_batch_map\<close>; it stops
  at a key that is desired already.
\<close>

fun desire_missing :: "int list \<Rightarrow> int \<Rightarrow> (int \<times> int) list \<Rightarrow> Status \<times> (int \<times> int) list" where
  "desire_missing [] batch_key desired = (OK, desired)"
| "desire_missing (i # missing) batch_key desired =
     (case emplace i batch_key desired of
        (m, inserted) \<Rightarrow>
          if \<not> inserted
          then (Some (Error InvalidArgument ''Missing tensor wanted by more than one batch.''),
                desired)
          else desire_missing missing batch_key m)"

text \<open>
  The end of \<open>Compute\<close>: when the caller's tensor is desired by a batch, it is no
  longer missing there, and a batch that misses nothing more is put out and erased.
\<close>

definition finish_desired ::
  "runtime \<Rightarrow> int \<Rightarrow> UnbatchGradResource \<Rightarrow> event list \<Rightarrow>
   Status \<times> UnbatchGradResource \<times> event list" where
  "finish_desired rt batch_key ugr evs =
     (case find_entry (desired_tensor_to_batch_map ugr) batch_key of
        None \<Rightarrow> (OK, ugr, evs)
      | Some owner \<Rightarrow>
          (let ugr1 = ugr\<lparr>desired_tensor_to_batch_map :=
                            erase batch_key (desired_tensor_to_batch_map ugr)\<rparr> in
           case find_entry (available_batches ugr) owner of
             None \<Rightarrow> (Some (Error InvalidArgument ''Batch no longer exists.''), ugr1, evs)
           | Some batch \<Rightarrow>
               (let batch' = batch\<lparr>missing_tensors :=
                                filter (\<lambda>k. k \<noteq> batch_key) (missing_tensors batch)\<rparr>;
                    ugr2 = ugr1\<lparr>available_batches :=
                             map (\<lambda>entry. if fst entry = owner then (owner, batch') else entry)
                               (available_batches ugr1)\<rparr>
                in if missing_tensors batch' = []
                   then (case OutputBatch rt (batch_context batch') (batch_done batch') ugr2 of
                           (Some e, ugr3, evs') \<Rightarrow> (Some e, ugr3, evs @ evs')
                         | (None, ugr3, evs') \<Rightarrow>
                             (OK, ugr3\<lparr>available_batches := erase owner (available_batches ugr3)\<rparr>,
                              evs @ evs'))
                   else (OK, ugr2, evs))))"

text \<open>
  \<open>UnbatchGradResource::Compute\<close>: the status, the resource afterwards, and the events
  of the call.
\<close>

definition UnbatchGrad_Compute ::
  "runtime \<Rightarrow> OpKernelContext \<Rightarrow> DoneCallback \<Rightarrow> UnbatchGradResource \<Rightarrow>
   Status \<times> UnbatchGradResource \<times> event list" where
  "UnbatchGrad_Compute rt ctx done ugr =
     (let data_t = ctx_input ctx ! 0;
          batch_index_t = ctx_input ctx ! 1;
          grad_t = ctx_input ctx ! 2;
          batch_key = flat (ctx_input ctx ! 3) ! 0
      in case emplace batch_key grad_t (available_tensors ugr) of
           (available, inserted) \<Rightarrow>
             if \<not> inserted
             then (Some (Error InvalidArgument ''Two runs with the same batch key.''), ugr, [])
             else
               (let ugr1 = ugr\<lparr>available_tensors := available\<rparr> in
                if NumElements data_t > 0
                then
                  (if NumElements batch_index_t = 0
                   then (Some (Error InvalidArgument
                           ''batch_index is empty while the tensor isn't.''), ugr1, [])
                   else
                     (let missing = collect_missing (index_keys batch_index_t) available [] in
                      if missing = [] then OutputBatch rt ctx done ugr1
                      else
                        (case emplace batch_key
                                \<lparr>missing_tensors = missing, batch_context = ctx,
                                 batch_done = done\<rparr> (available_batches ugr1) of
                           (batches, inserted_batch) \<Rightarrow>
                             if \<not> inserted_batch
                             then (Some (Error InvalidArgument
                                     ''Batch key with valid batch used twice.''), ugr1, [])
                             else
                               (case desire_missing missing batch_key
                                       (desired_tensor_to_batch_map ugr1) of
                                  (Some e, desired) \<Rightarrow>
                                    (Some e,
                                     ugr1\<lparr>available_batches := batches,
                                          desired_tensor_to_batch_map := desired\<rparr>, [])
                                | (None, desired) \<Rightarrow>
                                    finish_desired rt batch_key
                                      (ugr1\<lparr>available_batches := batches,
                                            desired_tensor_to_batch_map := desired\<rparr>) []))))
                else
                  (let output_shape = (shape grad_t)[0 := 0] in
                   case allocate_output ctx 0 output_shape of
                     Some e \<Rightarrow> (Some e, ugr1, [])
                   | None \<Rightarrow>
                       finish_desired rt batch_key ugr1
                         [SetOutput (ctx_id ctx) 0
                            \<lparr>dtype = dtype grad_t, shape = output_shape, flat = []\<rparr>,
                          Invoke done])))"

section \<open>Example values\<close>

text \<open>
  A context whose allocations succeed, a one-dimensional tensor with the given rows,
  and an unsplit task with one such input: the inputs at which the theorems below are
  evaluated.
\<close>

definition example_context :: OpKernelContext where
  "example_context =
     \<lparr>ctx_id = 0, num_outputs = 1, ctx_input = [],
      allocate_temp = (\<lambda>T s. OK), allocate_output = (\<lambda>i s. OK)\<rparr>"

definition example_tensor :: "int list \<Rightarrow> Tensor" where
  "example_tensor rows = \<lparr>dtype = DT_other 1, shape = [length rows], flat = rows\<rparr>"

definition example_task :: "nat \<Rightarrow> int list \<Rightarrow> BatchTask" where
  "example_task n rows =
     \<lparr>guid = int n, propagated_context = n, inputs = [example_tensor rows],
      captured_inputs = [], op_context = example_context\<lparr>ctx_id := n\<rparr>,
      done_callback = Done n, split_index = 0, output_matrix = n, status = n,
      is_partial = False, start_time = 0\<rparr>"

definition example_runtime :: runtime where
  "example_runtime =
     \<lparr>TF_CALL_ALL_TYPES = (\<lambda>T. True), IsInnerDimsSizeAligned = (\<lambda>t. True)\<rparr>"

definition example_world :: world where
  "example_world = \<lparr>statuses = (\<lambda>a. OK), matrices = (\<lambda>a. []), trace = []\<rparr>"

text \<open>
  An index tensor with the given rows, and the context of an \<open>Unbatch\<close> kernel with
  the inputs \<open>data\<close>, \<open>batch_index\<close> and the scalar \<open>batch_key\<close>.
\<close>

definition example_index :: "int list list \<Rightarrow> Tensor" where
  "example_index rows = \<lparr>dtype = DT_INT64, shape = [length rows, 3], flat = concat rows\<rparr>"


text \<open>
  The context of an \<open>UnbatchGrad\<close> kernel with the inputs \<open>original_data\<close>,
  \<open>batch_index\<close>, \<open>grad\<close> and the scalar \<open>batch_key\<close>.
\<close>

definition example_grad_context :: "nat \<Rightarrow> Tensor \<Rightarrow> Tensor \<Rightarrow> Tensor \<Rightarrow> OpKernelContext" where
  "example_grad_context n data index grad =
     example_context\<lparr>ctx_id := n,
       ctx_input := [data, index, grad, \<lparr>dtype = DT_INT64, shape = [], flat = [int n]\<rparr>]\<rparr>"

section \<open>Validation of the allowed batch sizes\<close>

lemma ValidateAllowedBatchSizes_loop_eq:
  "n = i + length xs \<Longrightarrow> xs \<noteq> [] \<Longrightarrow>
   ValidateAllowedBatchSizes_loop en mx n i l xs =
    (if \<not> sorted_wrt (<) (if i > 0 then l # xs else xs)
     then Some (Error InvalidArgument
            ''allowed_batch_sizes entries must be monotonically increasing'')
     else if \<not> en \<and> last xs \<noteq> mx
     then Some (Error InvalidArgument
            ''final entry in allowed_batch_sizes must equal max_batch_size when enable_large_batch_splitting is False'')
     else OK)"
proof (induction xs arbitrary: i l)
  case Nil
  then show ?case by simp
next
  case (Cons a xs)
  show ?case
  proof (cases xs)
    case Nil
    with Cons.prems show ?thesis by simp
  next
    case (Cons b ys)
    have IH: "ValidateAllowedBatchSizes_loop en mx n (Suc i) a xs =
      (if \<not> sorted_wrt (<) (a # xs)
       then Some (Error InvalidArgument
              ''allowed_batch_sizes entries must be monotonically increasing'')
       else if \<not> en \<and> last xs \<noteq> mx
       then Some (Error InvalidArgument
              ''final entry in allowed_batch_sizes must equal max_batch_size when enable_large_batch_splitting is False'')
       else OK)"
      using Cons.IH [of "Suc i" a] Cons.prems Cons by simp
    have ne: "i \<noteq> n - 1" using Cons.prems Cons by simp
    have l: "last (a # xs) = last xs" using Cons by simp
    show ?thesis
      unfolding ValidateAllowedBatchSizes_loop.simps IH l using ne
      by (cases "0 < i"; cases "a \<le> l"; simp; force)
  qed
qed

lemma ValidateAllowedBatchSizes_sorted:
  assumes "ValidateAllowedBatchSizes en mx xs = OK"
  shows "sorted_wrt (<) xs"
proof (cases "xs = []")
  case True
  then show ?thesis by simp
next
  case False
  with assms ValidateAllowedBatchSizes_loop_eq [of "length xs" 0 xs en mx 0]
  show ?thesis by (simp add: ValidateAllowedBatchSizes_def split: if_splits)
qed

text \<open>
  Claim C7: the validation accepts the empty list; it rejects with InvalidArgument
  every list that is not strictly increasing; a non-empty strictly increasing list is
  rejected, with InvalidArgument, exactly when \<open>enable_large_batch_splitting\<close> is false
  and its last entry differs from \<open>max_batch_size\<close>. When splitting is enabled,
  \<open>Create\<close> makes the last entry of a non-empty list the \<open>max_execution_batch_size\<close> of
  the queue options.
\<close>

theorem C7_validate_allowed_batch_sizes:
  "ValidateAllowedBatchSizes en mx xs =
    (if xs = [] then OK
     else if \<not> sorted_wrt (<) xs
     then Some (Error InvalidArgument
            ''allowed_batch_sizes entries must be monotonically increasing'')
     else if \<not> en \<and> last xs \<noteq> mx
     then Some (Error InvalidArgument
            ''final entry in allowed_batch_sizes must equal max_batch_size when enable_large_batch_splitting is False'')
     else OK) \<and>
   (xs \<noteq> [] \<longrightarrow>
     (\<exists>r. Create OK mx timeout enqueued xs fhandle True = Inr r \<and>
          max_execution_batch_size (batcher_queue_options r) = Some (last xs)))"
  using ValidateAllowedBatchSizes_loop_eq [of "length xs" 0 xs en mx 0]
  by (simp add: ValidateAllowedBatchSizes_def Create_def)

theorem C7_validate_allowed_batch_sizes_witness:
  "ValidateAllowedBatchSizes True 4 [2, 4, 8] = OK \<and>
   (\<exists>r. Create OK 4 0 0 [2, 4, 8] 0 True = Inr r \<and>
        max_execution_batch_size (batcher_queue_options r) = Some 8)"
  using C7_validate_allowed_batch_sizes [of True 4 "[2, 4, 8]" 0 0 0]
  by simp

section \<open>Properties of RoundToLowestAllowedBatchSize\<close>

lemma Round_loop_none:
  "\<forall>a\<in>set xs. a < n \<Longrightarrow> RoundToLowestAllowedBatchSize_loop xs n = n"
  by (induction xs) auto

lemma Round_loop_least:
  "sorted xs \<Longrightarrow> \<exists>a\<in>set xs. n \<le> a \<Longrightarrow>
   RoundToLowestAllowedBatchSize_loop xs n \<in> set xs \<and>
   n \<le> RoundToLowestAllowedBatchSize_loop xs n \<and>
   (\<forall>a\<in>set xs. n \<le> a \<longrightarrow> RoundToLowestAllowedBatchSize_loop xs n \<le> a)"
  by (induction xs) auto

lemma Round_loop_ge: "n \<le> RoundToLowestAllowedBatchSize_loop xs n"
  by (induction xs) auto

lemma Round_loop_member:
  "sorted_wrt (<) xs \<Longrightarrow> s \<in> set xs \<Longrightarrow> RoundToLowestAllowedBatchSize_loop xs s = s"
  by (induction xs) auto

lemma Round_loop_idem:
  "RoundToLowestAllowedBatchSize_loop xs (RoundToLowestAllowedBatchSize_loop xs n) =
   RoundToLowestAllowedBatchSize_loop xs n"
proof (induction xs)
  case Nil
  show ?case by simp
next
  case (Cons a xs)
  show ?case using Cons.IH Round_loop_ge [of n xs] by auto
qed

lemma Round_smallest_sorted:
  assumes "sorted allowed" and "allowed \<noteq> []"
  shows "(n \<le> Max (set allowed) \<longrightarrow>
            RoundToLowestAllowedBatchSize allowed n = Min {a \<in> set allowed. n \<le> a}) \<and>
         (Max (set allowed) < n \<longrightarrow> RoundToLowestAllowedBatchSize allowed n = n)"
proof (intro conjI impI)
  assume le: "n \<le> Max (set allowed)"
  have "Max (set allowed) \<in> set allowed" using assms(2) by simp
  with le have ex: "\<exists>a\<in>set allowed. n \<le> a" by blast
  let ?r = "RoundToLowestAllowedBatchSize_loop allowed n"
  from Round_loop_least [OF assms(1) ex]
  have r: "?r \<in> set allowed" "n \<le> ?r" "\<forall>a\<in>set allowed. n \<le> a \<longrightarrow> ?r \<le> a"
    by blast+
  have "Min {a \<in> set allowed. n \<le> a} = ?r"
    by (rule Min_eqI) (use r in auto)
  then show "RoundToLowestAllowedBatchSize allowed n = Min {a \<in> set allowed. n \<le> a}"
    using assms(2) by (simp add: RoundToLowestAllowedBatchSize_def)
next
  assume "Max (set allowed) < n"
  then have "\<forall>a\<in>set allowed. a < n" using assms(2) by simp
  then show "RoundToLowestAllowedBatchSize allowed n = n"
    by (simp add: RoundToLowestAllowedBatchSize_def Round_loop_none)
qed

text \<open>
  Claim C3: the list of allowed batch sizes that a \<open>BatchResource\<close> holds has passed
  \<open>ValidateAllowedBatchSizes\<close>, which the constructors of both kernels run before they
  create the resource. For every batch size \<open>n\<close> and every non-empty list that has
  passed this validation, \<open>RoundToLowestAllowedBatchSize\<close> returns the smallest entry
  that is at least \<open>n\<close> when there is one, and \<open>n\<close> itself when \<open>n\<close> exceeds the largest
  entry.
\<close>

theorem C3_round_smallest_allowed:
  assumes "ValidateAllowedBatchSizes enable_splitting max_batch_size allowed = OK"
    and "allowed \<noteq> []"
  shows "(n \<le> Max (set allowed) \<longrightarrow>
            RoundToLowestAllowedBatchSize allowed n = Min {a \<in> set allowed. n \<le> a}) \<and>
         (Max (set allowed) < n \<longrightarrow> RoundToLowestAllowedBatchSize allowed n = n)"
proof -
  from assms(1) have "sorted_wrt (<) allowed" by (rule ValidateAllowedBatchSizes_sorted)
  then have "sorted allowed" by (rule strict_sorted_imp_sorted)
  then show ?thesis using assms(2) by (rule Round_smallest_sorted)
qed

theorem C3_round_smallest_allowed_witness:
  "ValidateAllowedBatchSizes False 8 [2, 4, 8] = OK \<and> [2, 4, 8 :: int] \<noteq> [] \<and>
   RoundToLowestAllowedBatchSize [2, 4, 8] 3 = Min {a \<in> set [2, 4, 8]. 3 \<le> a} \<and>
   RoundToLowestAllowedBatchSize [2, 4, 8] 3 = 4 \<and>
   RoundToLowestAllowedBatchSize [2, 4, 8] 9 = 9"
proof -
  have v: "ValidateAllowedBatchSizes False 8 [2, 4, 8] = OK"
    by (simp add: ValidateAllowedBatchSizes_def)
  have ne: "[2, 4, 8 :: int] \<noteq> []" by simp
  have r: "RoundToLowestAllowedBatchSize [2, 4, 8] 3 = 4"
    by (simp add: RoundToLowestAllowedBatchSize_def)
  from C3_round_smallest_allowed [OF v ne, of 3] C3_round_smallest_allowed [OF v ne, of 9] v r
  show ?thesis by simp
qed

text \<open>
  Claim C8: for a strictly increasing list of allowed batch sizes, every entry \<open>s\<close> of
  the list is rounded to itself, and rounding twice gives what rounding once gives.
\<close>

theorem C8_round_idempotent:
  assumes "sorted_wrt (<) allowed"
  shows "(s \<in> set allowed \<longrightarrow> RoundToLowestAllowedBatchSize allowed s = s) \<and>
         RoundToLowestAllowedBatchSize allowed (RoundToLowestAllowedBatchSize allowed n) =
           RoundToLowestAllowedBatchSize allowed n"
  using assms by (simp add: RoundToLowestAllowedBatchSize_def Round_loop_member Round_loop_idem)

theorem C8_round_idempotent_witness:
  "RoundToLowestAllowedBatchSize [2, 4, 8] 4 = 4 \<and>
   RoundToLowestAllowedBatchSize [2, 4, 8] (RoundToLowestAllowedBatchSize [2, 4, 8] 3) =
     RoundToLowestAllowedBatchSize [2, 4, 8] 3"
proof -
  have s: "sorted_wrt (<) [2, 4, 8 :: int]" by simp
  from C8_round_idempotent [OF s, of 4 3] show ?thesis by simp
qed

section \<open>No padding without allowed batch sizes\<close>

lemma narrow_diff_zero: "to_int32 (to_size_t (to_size_t (to_int32 s) - s)) = 0"
proof -
  let ?a = "signed_take_bit (31::nat) s"
  have A: "take_bit 32 (take_bit 64 ?a - s) = take_bit 32 (take_bit 32 (take_bit 64 ?a) - take_bit 32 s)"
    by (simp only: take_bit_diff)
  have B: "take_bit 32 (take_bit 64 ?a) = take_bit 32 ?a"
    by (simp add: take_bit_take_bit)
  have C: "take_bit 32 ?a = take_bit 32 s"
    by (simp add: take_bit_signed_take_bit)
  have "take_bit 32 (take_bit 64 (take_bit 64 ?a - s)) = take_bit 32 (take_bit 64 ?a - s)"
    by (simp add: take_bit_take_bit)
  also have "\<dots> = take_bit 32 (0::int)"
    by (simp only: A B C) simp
  finally have "take_bit (Suc 31) (take_bit 64 (take_bit 64 ?a - s)) = take_bit (Suc 31) (0::int)"
    by simp
  then have "signed_take_bit 31 (take_bit 64 (take_bit 64 ?a - s)) = signed_take_bit 31 (0::int)"
    by (rule signed_take_bit_eq_iff_take_bit_eq [THEN iffD2])
  then show ?thesis by (simp add: to_int32_def to_size_t_def)
qed

text \<open>
  Claim C9: with an empty list of allowed batch sizes, \<open>RoundToLowestAllowedBatchSize\<close>
  returns its argument, so the padding amount of \<open>ConcatInputTensors\<close> and the padding
  size of \<open>SplitOutputTensors\<close> are zero for every batch (also where the narrowing of
  \<open>batch.size()\<close> to \<open>int\<close> loses bits), no padding tensor is appended to any input
  edge, and the sizes by which the outputs are split are the task sizes alone.
\<close>

theorem C9_no_padding_without_allowed_sizes:
  "RoundToLowestAllowedBatchSize [] n = n \<and>
   padding_amount [] batch = 0 \<and>
   padding_size [] batch = 0 \<and>
   padding_tensors (padding_amount [] batch) batch i = Inr [] \<and>
   concat_edge rt (padding_amount [] batch) batch ctx i =
     (case gather_inputs batch i of Inl e \<Rightarrow> Inl e | Inr ts \<Rightarrow> Concat rt ctx ts) \<and>
   task_sizes_plus_optional_padding [] batch =
     map (\<lambda>task. to_int64 (BatchTask_size task)) batch"
  by (simp add: RoundToLowestAllowedBatchSize_def padding_amount_def padded_batch_size_def
      padding_size_def padding_tensors_def task_sizes_plus_optional_padding_def
      concat_edge_def narrow_diff_zero split: sum.splits)

theorem C9_no_padding_without_allowed_sizes_witness:
  "RoundToLowestAllowedBatchSize [] 3 = 3 \<and>
   padding_amount [] [example_task 1 [10, 20], example_task 2 [30]] = 0 \<and>
   padding_size [] [example_task 1 [10, 20], example_task 2 [30]] = 0"
  using C9_no_padding_without_allowed_sizes
    [of 3 "[example_task 1 [10, 20], example_task 2 [30]]" 0 example_runtime example_context]
  by simp

section \<open>The index tensor\<close>

lemma to_size_t_id: "0 \<le> x \<Longrightarrow> x < 2 ^ 63 \<Longrightarrow> to_size_t x = x"
proof -
  assume a: "0 \<le> x" "x < 2 ^ 63"
  have "(2::int) ^ 63 < 2 ^ 64" by simp
  with a have "x < 2 ^ 64" by linarith
  with a show ?thesis by (simp add: to_size_t_def take_bit_int_eq_self)
qed

lemma to_int64_id: "0 \<le> x \<Longrightarrow> x < 2 ^ 63 \<Longrightarrow> to_int64 x = x"
  by (simp add: to_int64_def signed_take_bit_int_eq_self)

lemma BatchTask_size_nonneg: "0 \<le> BatchTask_size task"
  by (simp add: BatchTask_size_def to_size_t_def)

lemma sum_sizes_nonneg: "0 \<le> sum_list (map BatchTask_size batch)"
  by (induction batch) (auto simp: BatchTask_size_nonneg)

lemma EmitIndexTensor_loop_length: "length (EmitIndexTensor_loop batch offset) = length batch"
  by (induction batch arbitrary: offset) auto

lemma EmitIndexTensor_loop_rows: "r \<in> set (EmitIndexTensor_loop batch offset) \<Longrightarrow> length r = 3"
  by (induction batch arbitrary: offset) auto

lemma EmitIndexTensor_loop_nth:
  "0 \<le> offset \<Longrightarrow> offset + sum_list (map BatchTask_size batch) < 2 ^ 63 \<Longrightarrow> i < length batch \<Longrightarrow>
   EmitIndexTensor_loop batch offset ! i =
     [guid (batch ! i),
      offset + sum_list (map BatchTask_size (take i batch)),
      offset + sum_list (map BatchTask_size (take i batch)) + BatchTask_size (batch ! i)]"
proof (induction batch arbitrary: offset i)
  case Nil
  then show ?case by simp
next
  case (Cons task rest)
  have s0: "0 \<le> BatchTask_size task" by (rule BatchTask_size_nonneg)
  have r0: "0 \<le> sum_list (map BatchTask_size rest)" by (rule sum_sizes_nonneg)
  from Cons.prems have lt: "offset + BatchTask_size task + sum_list (map BatchTask_size rest) < 2 ^ 63"
    by simp
  have o1: "offset < 2 ^ 63" using lt s0 r0 by linarith
  have o2: "0 \<le> offset + BatchTask_size task" "offset + BatchTask_size task < 2 ^ 63"
    using lt s0 r0 Cons.prems(1) by linarith+
  have c1: "to_int64 offset = offset" using Cons.prems(1) o1 by (rule to_int64_id)
  have c2: "to_size_t (offset + BatchTask_size task) = offset + BatchTask_size task"
    using o2 by (rule to_size_t_id)
  have c3: "to_int64 (offset + BatchTask_size task) = offset + BatchTask_size task"
    using o2 by (rule to_int64_id)
  show ?case
  proof (cases i)
    case 0
    then show ?thesis by (simp add: c1 c2 c3)
  next
    case (Suc k)
    with Cons.prems have k: "k < length rest" by simp
    from Cons.IH [OF o2(1) _ k] lt
    show ?thesis using Suc by (simp add: c2 add.assoc)
  qed
qed

lemma concat_rows_nth:
  "\<forall>r\<in>set rows. length r = n \<Longrightarrow> i < length rows \<Longrightarrow> j < n \<Longrightarrow>
   concat rows ! (i * n + j) = rows ! i ! j"
proof (induction rows arbitrary: i)
  case Nil
  then show ?case by simp
next
  case (Cons r rows)
  show ?case
  proof (cases i)
    case 0
    with Cons.prems show ?thesis by (simp add: nth_append)
  next
    case (Suc k)
    with Cons.prems have "concat rows ! (k * n + j) = rows ! k ! j"
      by (intro Cons.IH) auto
    moreover have "length r = n" using Cons.prems by simp
    ultimately show ?thesis using Suc by (simp add: nth_append)
  qed
qed

text \<open>
  Claim C1: for a non-empty batch, when the allocation of the output succeeds,
  \<open>EmitIndexTensor\<close> produces a tensor of shape \<open>(num_tasks, 3)\<close> whose row \<open>i\<close> holds
  the guid of task \<open>i\<close>, the sum of the sizes of the tasks before it, and that sum plus
  the size of task \<open>i\<close>. The sizes of a batch add up to less than \<open>2 ^ 63\<close>, so that
  the \<open>size_t\<close> offsets are stored in the \<open>int64\<close> entries unchanged.
\<close>

theorem C1_index_tensor_rows:
  assumes alloc: "allocate_output ctx output_index [num_tasks batch, 3] = OK"
    and nonempty: "batch \<noteq> []"
    and range: "sum_list (map BatchTask_size batch) < 2 ^ 63"
  shows "\<exists>index. EmitIndexTensor ctx batch output_index = Inr index \<and>
           shape index = [num_tasks batch, 3] \<and>
           length (flat index) = num_tasks batch * 3 \<and>
           (\<forall>i<num_tasks batch.
              index_entry index i 0 = guid (batch ! i) \<and>
              index_entry index i 1 = sum_list (map BatchTask_size (take i batch)) \<and>
              index_entry index i 2 = index_entry index i 1 + BatchTask_size (batch ! i))"
proof -
  let ?rows = "EmitIndexTensor_loop batch 0"
  let ?index = "\<lparr>dtype = DT_INT64, shape = [num_tasks batch, 3], flat = concat ?rows\<rparr>"
  have e: "EmitIndexTensor ctx batch output_index = Inr ?index"
    using alloc by (simp add: EmitIndexTensor_def)
  have rows: "\<forall>r\<in>set ?rows. length r = 3"
    by (auto dest: EmitIndexTensor_loop_rows)
  have len: "length (concat ?rows) = num_tasks batch * 3"
    using rows by (simp add: length_concat num_tasks_def EmitIndexTensor_loop_length sum_list_triv
        cong: map_cong)
  have entry: "index_entry ?index i j = ?rows ! i ! j" if "i < num_tasks batch" "j < 3" for i j
    using concat_rows_nth [OF rows, of i j] that
    by (simp add: index_entry_def num_tasks_def EmitIndexTensor_loop_length)
  have "index_entry ?index i 0 = guid (batch ! i) \<and>
        index_entry ?index i 1 = sum_list (map BatchTask_size (take i batch)) \<and>
        index_entry ?index i 2 = index_entry ?index i 1 + BatchTask_size (batch ! i)"
    if i: "i < num_tasks batch" for i
  proof -
    have "?rows ! i = [guid (batch ! i), 0 + sum_list (map BatchTask_size (take i batch)),
        0 + sum_list (map BatchTask_size (take i batch)) + BatchTask_size (batch ! i)]"
      using i range by (intro EmitIndexTensor_loop_nth) (simp_all add: num_tasks_def)
    then show ?thesis using entry [OF i] by simp
  qed
  with e len show ?thesis by auto
qed

theorem C1_index_tensor_rows_witness:
  "EmitIndexTensor example_context
     [example_task 11 [1, 2], example_task 12 [3], example_task 13 [4]] 1 =
   Inr \<lparr>dtype = DT_INT64, shape = [3, 3], flat = [11, 0, 2, 12, 2, 3, 13, 3, 4]\<rparr>"
proof -
  let ?batch = "[example_task 11 [1, 2], example_task 12 [3], example_task 13 [4]]"
  have sizes: "map BatchTask_size ?batch = [2, 1, 1]"
    by (simp add: BatchTask_size_def example_task_def example_tensor_def dim_size_def
        to_size_t_def)
  have a: "allocate_output example_context 1 [num_tasks ?batch, 3] = OK"
    by (simp add: example_context_def)
  have b: "?batch \<noteq> []" by simp
  have c: "sum_list (map BatchTask_size ?batch) < 2 ^ 63"
    unfolding sizes by simp
  from C1_index_tensor_rows [OF a b c] show ?thesis
    by (simp add: EmitIndexTensor_def example_context_def num_tasks_def sizes
        example_task_def to_int64_def to_size_t_def BatchTask_size_def example_tensor_def
        dim_size_def)
qed

section \<open>Concatenation and padding\<close>

lemma tl_eq_if_nth:
  assumes "length a = length b" and "list_all (\<lambda>j. a ! j = b ! j) [1..<length b]"
  shows "tl a = tl b"
proof (rule nth_equalityI)
  show "length (tl a) = length (tl b)" using assms(1) by simp
next
  fix k assume k: "k < length (tl a)"
  then have "Suc k \<in> set [1..<length b]" using assms(1) by auto
  with assms(2) have "a ! Suc k = b ! Suc k" by (simp add: list_all_iff)
  then show "tl a ! k = tl b ! k" using k assms(1) by (simp add: nth_tl)
qed

lemma NumElements_rows: "shape t \<noteq> [] \<Longrightarrow> NumElements t = dim_size t 0 * row_elements t"
  by (cases "shape t") (simp_all add: NumElements_def dim_size_def row_elements_def)

lemma Concat_loop_Inr:
  assumes "Concat_loop input0 ins (d0, fl) = Inr (d, f)"
    and "\<forall>t\<in>set ins. well_formed t"
  shows "d = d0 + sum_list (map (\<lambda>t. dim_size t 0) ins) \<and>
         f = fl @ concat (map flat ins) \<and>
         (\<forall>t\<in>set ins. tl (shape t) = tl (shape input0))"
  using assms
proof (induction ins arbitrary: d0 fl)
  case Nil
  then show ?case by simp
next
  case (Cons t ins)
  from Cons.prems(1) have rank: "dims t = dims input0"
    and inner: "list_all (\<lambda>j. dim_size t j = dim_size input0 j) [1..<dims input0]"
    and rest: "Concat_loop input0 ins (d0 + dim_size t 0,
        if NumElements t > 0 then fl @ flat t else fl) = Inr (d, f)"
    by (auto split: if_splits)
  have tl: "tl (shape t) = tl (shape input0)"
    using rank inner by (intro tl_eq_if_nth) (simp_all add: dims_def dim_size_def)
  have fl: "(if NumElements t > 0 then fl @ flat t else fl) = fl @ flat t"
    using Cons.prems(2) by (auto simp: well_formed_def)
  from Cons.IH [OF rest [unfolded fl]] Cons.prems(2) tl
  show ?case by simp
qed

lemma Concat_Inr:
  assumes "Concat rt ctx ins = Inr out"
    and "ins \<noteq> []"
    and "\<forall>t\<in>set ins. well_formed t"
  shows "flat out = concat (map flat ins) \<and>
         shape out = sum_list (map (\<lambda>t. dim_size t 0) ins) # tl (shape (ins ! 0))"
proof -
  from assms(2) obtain input0 rest where ins: "ins = input0 # rest" by (cases ins) auto
  from assms(1) ins have T: "Concat_T ctx (dtype input0) ins = Inr out"
    by (auto simp: Concat_def split: if_splits)
  then obtain d f where loop: "Concat_loop input0 ins (0, []) = Inr (d, f)"
    and out: "out = \<lparr>dtype = dtype input0, shape = (shape input0)[0 := d],
        flat = (if prod_list ((shape input0)[0 := d]) > 0 then f else [])\<rparr>"
    by (auto simp: Concat_T_def ins Let_def split: sum.splits option.splits)
  from Concat_loop_Inr [OF loop assms(3)]
  have d: "d = sum_list (map (\<lambda>t. dim_size t 0) ins)"
    and f: "f = concat (map flat ins)"
    and tl: "\<forall>t\<in>set ins. tl (shape t) = tl (shape input0)" by auto
  have ne: "shape input0 \<noteq> []" using assms(3) ins by (simp add: well_formed_def)
  then have sh: "(shape input0)[0 := d] = d # tl (shape input0)"
    by (cases "shape input0") simp_all
  have len: "length (flat t) = dim_size t 0 * row_elements input0" if "t \<in> set ins" for t
  proof -
    from that assms(3) have "well_formed t" by blast
    then have "length (flat t) = dim_size t 0 * row_elements t"
      by (simp add: well_formed_def NumElements_rows)
    also have "row_elements t = row_elements input0"
      using tl that by (simp add: row_elements_def)
    finally show ?thesis .
  qed
  have "length f = sum_list (map (\<lambda>t. dim_size t 0 * row_elements input0) ins)"
    unfolding f length_concat map_map comp_def using len by (simp cong: map_cong)
  also have "\<dots> = d * row_elements input0"
    unfolding d by (simp add: sum_list_mult_const)
  finally have "length f = prod_list ((shape input0)[0 := d])"
    by (simp add: sh row_elements_def)
  then have "(if prod_list ((shape input0)[0 := d]) > 0 then f else []) = f"
    by auto
  with out sh show ?thesis by (simp add: f d ins)
qed


lemma to_int32_id: "0 \<le> x \<Longrightarrow> x < 2 ^ 31 \<Longrightarrow> to_int32 x = x"
  by (simp add: to_int32_def signed_take_bit_int_eq_self)

lemma to_size_t_id31: "0 \<le> x \<Longrightarrow> x < 2 ^ 31 \<Longrightarrow> to_size_t x = x"
proof -
  assume a: "0 \<le> x" "x < 2 ^ 31"
  have "(2::int) ^ 31 < 2 ^ 64" by simp
  with a have "x < 2 ^ 64" by linarith
  with a show ?thesis by (simp add: to_size_t_def take_bit_int_eq_self)
qed

lemma Batch_size_nonneg: "0 \<le> Batch_size batch"
  by (simp add: Batch_size_def to_size_t_def)

lemma padding_amount_exact:
  assumes "Batch_size batch < padded_batch_size allowed batch"
    and "padded_batch_size allowed batch < 2 ^ 31"
  shows "padding_amount allowed batch = padded_batch_size allowed batch - Batch_size batch"
proof -
  let ?p = "padded_batch_size allowed batch" and ?s = "Batch_size batch"
  have s0: "0 \<le> ?s" by (rule Batch_size_nonneg)
  have p: "to_size_t ?p = ?p" using assms s0 by (intro to_size_t_id31) linarith+
  have d: "0 \<le> ?p - ?s" "?p - ?s < 2 ^ 31" using assms s0 by linarith+
  show ?thesis
    unfolding padding_amount_def p using d by (simp add: to_size_t_id31 to_int32_id)
qed

lemma gather_inputs_Inr:
  "gather_inputs batch i = Inr ts \<Longrightarrow>
   ts = map (\<lambda>task. inputs task ! i) batch \<and> (\<forall>task\<in>set batch. i < length (inputs task))"
  by (induction batch arbitrary: ts) (auto simp: at_def split: sum.splits if_splits)

lemma gather_inputs_total:
  "\<forall>task\<in>set batch. i < length (inputs task) \<Longrightarrow>
   gather_inputs batch i = Inr (map (\<lambda>task. inputs task ! i) batch)"
  by (induction batch) (auto simp: at_def)

lemma ValidateBatch_loop_OK:
  "ValidateBatch_loop task0 batch = OK \<Longrightarrow>
   \<forall>task\<in>set batch. length (inputs task) = length (inputs task0)"
  by (induction batch) (auto split: if_splits)

lemma ValidateBatch_OK:
  "ValidateBatch batch = OK \<Longrightarrow> \<forall>task\<in>set batch. length (inputs task) = length (inputs (batch ! 0))"
  unfolding ValidateBatch_def by (rule ValidateBatch_loop_OK)

text \<open>The first row of a tensor, as its elements.\<close>

lemma Slice_first_row:
  "well_formed t \<Longrightarrow> dim_size t 0 \<noteq> 0 \<Longrightarrow>
   well_formed (Slice t 0 1) \<and> flat (Slice t 0 1) = take (row_elements t) (flat t) \<and>
   dim_size (Slice t 0 1) 0 = 1 \<and> tl (shape (Slice t 0 1)) = tl (shape t)"
  by (cases "shape t")
     (auto simp: well_formed_def Slice_def NumElements_def row_elements_def dim_size_def)

lemma single_row:
  "well_formed t \<Longrightarrow> dim_size t 0 = 1 \<Longrightarrow> take (row_elements t) (flat t) = flat t"
  by (simp add: well_formed_def NumElements_rows)

lemma padding_tensors_Inr:
  assumes "padding_tensors padding batch i = Inr ps" and "0 < padding"
    and "well_formed (inputs (batch ! 0) ! i)"
  shows "\<exists>p. ps = replicate (nat padding) p \<and> well_formed p \<and> dim_size p 0 = 1 \<and>
             flat p = take (row_elements (inputs (batch ! 0) ! i)) (flat (inputs (batch ! 0) ! i))"
proof -
  let ?src = "inputs (batch ! 0) ! i"
  from assms(1,2) have i: "i < length (inputs (batch ! 0))" and nz: "dim_size ?src 0 \<noteq> 0"
    and ps: "ps = replicate (nat padding) (if dim_size ?src 0 = 1 then ?src else Slice ?src 0 1)"
    by (auto simp: padding_tensors_def at_def split: if_splits)
  show ?thesis
  proof (cases "dim_size ?src 0 = 1")
    case True
    with ps assms(3) single_row [OF assms(3) True] show ?thesis by auto
  next
    case False
    with ps Slice_first_row [OF assms(3) nz] show ?thesis by auto
  qed
qed

lemma concat_edges_Inr:
  "concat_edges rt padding batch ctx idxs = Inr ts \<Longrightarrow>
   length ts = length idxs \<and> (\<forall>k<length idxs. concat_edge rt padding batch ctx (idxs ! k) = Inr (ts ! k))"
proof (induction idxs arbitrary: ts)
  case Nil
  then show ?case by simp
next
  case (Cons i idxs)
  from Cons.prems obtain t ts' where t: "concat_edge rt padding batch ctx i = Inr t"
    and ts': "concat_edges rt padding batch ctx idxs = Inr ts'" and ts: "ts = t # ts'"
    by (auto split: sum.splits)
  from Cons.IH [OF ts'] t ts show ?case by (auto simp: nth_Cons split: nat.splits)
qed

lemma concat_edge_zero_rows:
  assumes "0 < padding"
    and "\<forall>task\<in>set batch. i < length (inputs task)"
    and "batch \<noteq> []"
    and "dim_size (inputs (batch ! 0) ! i) 0 = 0"
  shows "concat_edge rt padding batch ctx i =
    Inl (Error InvalidArgument
      ''Cannot use an empty tensor with zero rows as padding when batching.'')"
proof -
  have g: "gather_inputs batch i = Inr (map (\<lambda>task. inputs task ! i) batch)"
    using assms(2) by (rule gather_inputs_total)
  have i0: "i < length (inputs (batch ! 0))" using assms(2,3) by (cases batch) auto
  show ?thesis using assms(1,4) i0 by (simp add: concat_edge_def g padding_tensors_def at_def)
qed

lemma concat_edge_Inr:
  assumes "concat_edge rt padding batch ctx i = Inr out"
    and "0 < padding"
    and "batch \<noteq> []"
    and "\<forall>task\<in>set batch. \<forall>t\<in>set (inputs task). well_formed t"
  shows "flat out = concat (map (\<lambda>task. flat (inputs task ! i)) batch)
           @ concat (replicate (nat padding)
               (take (row_elements (inputs (batch ! 0) ! i)) (flat (inputs (batch ! 0) ! i)))) \<and>
         shape out = (sum_list (map (\<lambda>task. dim_size (inputs task ! i) 0) batch) + nat padding)
           # tl (shape (inputs (batch ! 0) ! i))"
proof -
  let ?src = "inputs (batch ! 0) ! i"
  let ?ins = "map (\<lambda>task. inputs task ! i) batch"
  from assms(1) obtain ts pad where g: "gather_inputs batch i = Inr ts"
    and p: "padding_tensors padding batch i = Inr pad"
    and c: "Concat rt ctx (ts @ pad) = Inr out"
    by (auto simp: concat_edge_def split: sum.splits)
  from gather_inputs_Inr [OF g] have ts: "ts = ?ins"
    and all: "\<forall>task\<in>set batch. i < length (inputs task)" by auto
  have wf_ins: "\<forall>t\<in>set ?ins. well_formed t" using all assms(4) by auto
  have "batch ! 0 \<in> set batch" using assms(3) by simp
  with all assms(4) have wf_src: "well_formed ?src" by auto
  from padding_tensors_Inr [OF p assms(2) wf_src] obtain q where
    pad: "pad = replicate (nat padding) q" and wfq: "well_formed q" and q1: "dim_size q 0 = 1"
    and fq: "flat q = take (row_elements ?src) (flat ?src)" by blast
  have ne: "ts @ pad \<noteq> []" using ts assms(3) by simp
  have wf_all: "\<forall>t\<in>set (ts @ pad). well_formed t" using wf_ins wfq ts pad by auto
  have hd: "(ts @ pad) ! 0 = ?src" using ts assms(3) by (cases batch) auto
  have sum_pad: "sum_list (map (\<lambda>t. dim_size t 0) pad) = nat padding"
    by (simp add: pad q1 sum_list_replicate)
  have flat_pad: "concat (map flat pad) = concat (replicate (nat padding) (flat q))"
    by (simp add: pad)
  from Concat_Inr [OF c ne wf_all] show ?thesis
    unfolding hd by (simp add: ts sum_pad flat_pad fq comp_def)
qed

lemma example_sizes:
  "BatchTask_size (example_task n rows) = to_size_t (int (length rows))"
  by (simp add: BatchTask_size_def example_task_def example_tensor_def dim_size_def)

lemma example_inputs: "inputs (example_task n rows) = [example_tensor rows]"
  by (simp add: example_task_def)

lemma example_well_formed: "\<forall>t\<in>set (inputs (example_task n rows)). well_formed t"
  by (simp add: example_task_def example_tensor_def well_formed_def NumElements_def)

lemma RegisterInput_loop_Inr:
  "RegisterInput_loop tensors rest acc = Inr ins \<Longrightarrow>
   ins = acc @ rest \<and>
   (\<forall>t\<in>set rest. shape t \<noteq> [] \<and>
      (length tensors \<ge> 2 \<longrightarrow> dim_size t 0 = dim_size (tensors ! 0) 0))"
proof (induction rest arbitrary: acc)
  case Nil
  then show ?case by simp
next
  case (Cons a rest)
  from Cons.prems have a: "shape a \<noteq> []"
    and eq: "length tensors \<ge> 2 \<longrightarrow> dim_size a 0 = dim_size (tensors ! 0) 0"
    and rest: "RegisterInput_loop tensors rest (acc @ [a]) = Inr ins"
    by (auto simp: dims_def split: if_splits)
  from Cons.IH [OF rest] a eq show ?case by simp
qed

lemma RegisterInput_dim0:
  assumes "RegisterInput_inputs ins = Inr ins" and "i < length ins"
  shows "dim_size (ins ! i) 0 = dim_size (ins ! 0) 0"
proof (cases "length ins \<ge> 2")
  case True
  from RegisterInput_loop_Inr [OF assms(1) [unfolded RegisterInput_inputs_def]] True assms(2)
  show ?thesis by simp
next
  case False
  with assms(2) have "i = 0" by simp
  then show ?thesis by simp
qed

lemma Concat_loop_total:
  assumes "\<forall>t\<in>set ins. shape t \<noteq> [] \<and> tl (shape t) = tl (shape input0)"
    and "shape input0 \<noteq> []"
  shows "\<exists>d f. Concat_loop input0 ins (d0, fl) = Inr (d, f)"
  using assms(1)
proof (induction ins arbitrary: d0 fl)
  case Nil
  show ?case by simp
next
  case (Cons t ins)
  from Cons.prems have ne: "shape t \<noteq> []" and tl: "tl (shape t) = tl (shape input0)" by simp_all
  have "length (tl (shape t)) = length (tl (shape input0))" using tl by simp
  then have rank: "dims t = dims input0"
    using ne assms(2) by (cases "shape t"; cases "shape input0") (simp_all add: dims_def)
  have inner: "list_all (\<lambda>j. dim_size t j = dim_size input0 j) [1..<dims input0]"
  proof -
    have "shape t ! j = shape input0 ! j" if "1 \<le> j" "j < length (shape input0)" for j
    proof -
      from that obtain k where j: "j = Suc k" by (cases j) auto
      have "shape t ! Suc k = tl (shape t) ! k" using ne by (cases "shape t") simp_all
      also have "\<dots> = tl (shape input0) ! k" using tl by simp
      also have "\<dots> = shape input0 ! Suc k" using assms(2) by (cases "shape input0") simp_all
      finally show ?thesis using j by simp
    qed
    then show ?thesis by (simp add: list_all_iff dims_def dim_size_def)
  qed
  from Cons.IH [of "d0 + dim_size t 0" "if NumElements t > 0 then fl @ flat t else fl"] Cons.prems
  obtain d f where "Concat_loop input0 ins (d0 + dim_size t 0,
      if NumElements t > 0 then fl @ flat t else fl) = Inr (d, f)" by auto
  with rank inner show ?case by auto
qed

lemma Concat_total:
  assumes ne: "ins \<noteq> []"
    and wf: "\<forall>t\<in>set ins. well_formed t"
    and tl: "\<forall>t\<in>set ins. tl (shape t) = tl (shape (ins ! 0))"
    and ty: "TF_CALL_ALL_TYPES rt (dtype (ins ! 0))"
    and al: "allocate_temp ctx (dtype (ins ! 0))
      (sum_list (map (\<lambda>t. dim_size t 0) ins) # tl (shape (ins ! 0))) = OK"
  shows "\<exists>out. Concat rt ctx ins = Inr out"
proof -
  from ne obtain input0 rest where ins: "ins = input0 # rest" by (cases ins) auto
  have hd: "ins ! 0 = input0" by (simp add: ins)
  have ne0: "shape input0 \<noteq> []" using wf ins by (simp add: well_formed_def)
  have "\<forall>t\<in>set ins. shape t \<noteq> [] \<and> tl (shape t) = tl (shape input0)"
    using wf tl hd by (auto simp: well_formed_def)
  from Concat_loop_total [OF this ne0, of 0 "[]"]
  obtain d f where loop: "Concat_loop input0 ins (0, []) = Inr (d, f)" by blast
  from Concat_loop_Inr [OF loop wf]
  have d: "d = sum_list (map (\<lambda>t. dim_size t 0) ins)" by simp
  have sh: "(shape input0)[0 := d] = d # tl (shape input0)"
    using ne0 by (cases "shape input0") simp_all
  have "allocate_temp ctx (dtype input0) ((shape input0)[0 := d]) = OK"
    unfolding sh using al hd d by simp
  with loop ty hd show ?thesis
    unfolding Concat_def ins by (simp add: Concat_T_def Let_def ins)
qed


lemma concat_edge_total:
  assumes pos: "0 < padding" and ne: "batch \<noteq> []"
    and all: "\<forall>task\<in>set batch. i < length (inputs task)"
    and wf: "\<forall>task\<in>set batch. \<forall>t\<in>set (inputs task). well_formed t"
    and nz: "dim_size (inputs (batch ! 0) ! i) 0 \<noteq> 0"
    and ty: "TF_CALL_ALL_TYPES rt (dtype (inputs (batch ! 0) ! i))"
    and tl: "\<forall>task\<in>set batch. tl (shape (inputs task ! i)) = tl (shape (inputs (batch ! 0) ! i))"
    and al: "allocate_temp ctx (dtype (inputs (batch ! 0) ! i))
      ((sum_list (map (\<lambda>task. dim_size (inputs task ! i) 0) batch) + nat padding)
         # tl (shape (inputs (batch ! 0) ! i))) = OK"
  shows "\<exists>out. concat_edge rt padding batch ctx i = Inr out"
proof -
  let ?src = "inputs (batch ! 0) ! i"
  let ?ins = "map (\<lambda>task. inputs task ! i) batch"
  let ?q = "if dim_size ?src 0 = 1 then ?src else Slice ?src 0 1"
  let ?pad = "replicate (nat padding) ?q"
  have g: "gather_inputs batch i = Inr ?ins" using all by (rule gather_inputs_total)
  have b0: "batch ! 0 \<in> set batch" using ne by simp
  with all have i0: "i < length (inputs (batch ! 0))" by blast
  with b0 wf have wf_src: "well_formed ?src" by auto
  have p: "padding_tensors padding batch i = Inr ?pad"
    using pos i0 nz by (simp add: padding_tensors_def at_def)
  have q: "well_formed ?q \<and> dim_size ?q 0 = 1 \<and> tl (shape ?q) = tl (shape ?src)"
    using wf_src Slice_first_row [OF wf_src nz] by simp
  have hd: "(?ins @ ?pad) ! 0 = ?src" using ne by (cases batch) auto
  have wf_ins: "\<forall>t\<in>set ?ins. well_formed t" using all wf by auto
  have c1: "?ins @ ?pad \<noteq> []" using ne by simp
  have c2: "\<forall>t\<in>set (?ins @ ?pad). well_formed t" using wf_ins q by auto
  have c3: "\<forall>t\<in>set (?ins @ ?pad). tl (shape t) = tl (shape ((?ins @ ?pad) ! 0))"
    unfolding hd using tl q by auto
  have c4: "TF_CALL_ALL_TYPES rt (dtype ((?ins @ ?pad) ! 0))" unfolding hd by (rule ty)
  have sum: "sum_list (map (\<lambda>t. dim_size t 0) (?ins @ ?pad)) =
      sum_list (map (\<lambda>task. dim_size (inputs task ! i) 0) batch) + nat padding"
    using q by (simp add: comp_def sum_list_replicate)
  have c5: "allocate_temp ctx (dtype ((?ins @ ?pad) ! 0))
      (sum_list (map (\<lambda>t. dim_size t 0) (?ins @ ?pad)) # tl (shape ((?ins @ ?pad) ! 0))) = OK"
    unfolding hd sum by (rule al)
  from Concat_total [OF c1 c2 c3 c4 c5] show ?thesis
    by (simp add: concat_edge_def g p)
qed

lemma concat_edges_total:
  "\<forall>i\<in>set idxs. \<exists>t. concat_edge rt padding batch ctx i = Inr t \<Longrightarrow>
   \<exists>ts. concat_edges rt padding batch ctx idxs = Inr ts"
proof (induction idxs)
  case Nil
  show ?case by simp
next
  case (Cons i idxs)
  from Cons.prems obtain t where t: "concat_edge rt padding batch ctx i = Inr t" by auto
  from Cons.IH Cons.prems obtain ts where "concat_edges rt padding batch ctx idxs = Inr ts"
    by auto
  with t show ?case by simp
qed

lemma example_registered:
  "RegisterInput_inputs (inputs (example_task n rows)) = Inr (inputs (example_task n rows))"
  by (simp add: RegisterInput_inputs_def example_task_def example_tensor_def dims_def)


text \<open>
  Claim C6, for a batch that has passed \<open>ValidateBatch\<close>, as it has wherever
  \<open>ConcatInputTensors\<close> is called, and whose tasks hold inputs that pass the checks of
  \<open>RegisterInput\<close>: every input has a dimension, and the inputs of one task have the
  same zeroth dimension. When the padded batch size exceeds the batch size (and fits an
  \<open>int\<close>), \<open>padding_amount\<close> is their difference. When, for every input edge, the first
  task's tensor has a row, its element type is one that \<open>Concat\<close> handles, the tensors
  of the tasks agree on their inner dimensions and the allocation of the concatenated
  tensor succeeds, \<open>ConcatInputTensors\<close> returns for every edge a tensor that holds the
  rows of all tasks for that edge followed by \<open>padding_amount\<close> copies of the first row
  of the first task's tensor; and whatever \<open>ConcatInputTensors\<close> returns with OK are
  such tensors. When the first task's tensor of some edge has no row,
  \<open>ConcatInputTensors\<close> fails with InvalidArgument.
\<close>

theorem C6_padding_rows:
  assumes padded: "Batch_size batch < padded_batch_size allowed batch"
    and fits: "padded_batch_size allowed batch < 2 ^ 31"
    and nonempty: "batch \<noteq> []"
    and valid: "ValidateBatch batch = OK"
    and edges: "length (inputs (batch ! 0)) < 2 ^ 31"
    and wf: "\<forall>task\<in>set batch. \<forall>t\<in>set (inputs task). well_formed t"
    and registered: "\<forall>task\<in>set batch. RegisterInput_inputs (inputs task) = Inr (inputs task)"
  shows "padding_amount allowed batch = padded_batch_size allowed batch - Batch_size batch \<and>
    ((\<forall>i<length (inputs (batch ! 0)).
        dim_size (inputs (batch ! 0) ! i) 0 \<noteq> 0 \<and>
        TF_CALL_ALL_TYPES rt (dtype (inputs (batch ! 0) ! i)) \<and>
        (\<forall>task\<in>set batch. tl (shape (inputs task ! i)) = tl (shape (inputs (batch ! 0) ! i))) \<and>
        allocate_temp ctx (dtype (inputs (batch ! 0) ! i))
          ((sum_list (map (\<lambda>task. dim_size (inputs task ! i) 0) batch)
              + nat (padded_batch_size allowed batch - Batch_size batch))
           # tl (shape (inputs (batch ! 0) ! i))) = OK) \<longrightarrow>
       (\<exists>ts. ConcatInputTensors rt allowed batch ctx = Inr ts \<and>
          length ts = length (inputs (batch ! 0)) \<and>
          (\<forall>i<length ts.
             flat (ts ! i) =
               concat (map (\<lambda>task. flat (inputs task ! i)) batch)
               @ concat (replicate (nat (padded_batch_size allowed batch - Batch_size batch))
                   (take (row_elements (inputs (batch ! 0) ! i))
                      (flat (inputs (batch ! 0) ! i)))) \<and>
             shape (ts ! i) =
               (sum_list (map (\<lambda>task. dim_size (inputs task ! i) 0) batch)
                  + nat (padded_batch_size allowed batch - Batch_size batch))
               # tl (shape (inputs (batch ! 0) ! i))))) \<and>
    (\<forall>ts. ConcatInputTensors rt allowed batch ctx = Inr ts \<longrightarrow>
       length ts = length (inputs (batch ! 0)) \<and>
       (\<forall>i<length ts.
          flat (ts ! i) =
            concat (map (\<lambda>task. flat (inputs task ! i)) batch)
            @ concat (replicate (nat (padded_batch_size allowed batch - Batch_size batch))
                (take (row_elements (inputs (batch ! 0) ! i)) (flat (inputs (batch ! 0) ! i)))) \<and>
          shape (ts ! i) =
            (sum_list (map (\<lambda>task. dim_size (inputs task ! i) 0) batch)
               + nat (padded_batch_size allowed batch - Batch_size batch))
            # tl (shape (inputs (batch ! 0) ! i)))) \<and>
    ((\<exists>i<length (inputs (batch ! 0)). dim_size (inputs (batch ! 0) ! i) 0 = 0) \<longrightarrow>
       ConcatInputTensors rt allowed batch ctx =
         Inl (Error InvalidArgument
           ''Cannot use an empty tensor with zero rows as padding when batching.''))"
proof -
  let ?pad = "padding_amount allowed batch"
  let ?n = "length (inputs (batch ! 0))"
  have pa: "?pad = padded_batch_size allowed batch - Batch_size batch"
    using padded fits by (rule padding_amount_exact)
  have pos: "0 < ?pad" using pa padded by simp
  have n: "nat (to_int32 (int ?n)) = ?n"
    using edges by (simp add: to_int32_id)
  have C: "ConcatInputTensors rt allowed batch ctx = concat_edges rt ?pad batch ctx [0..<?n]"
    using nonempty by (simp add: ConcatInputTensors_def num_tasks_def Let_def n)
  from ValidateBatch_OK [OF valid] have all: "\<forall>task\<in>set batch. length (inputs task) = ?n" .
  have S: "\<exists>ts. ConcatInputTensors rt allowed batch ctx = Inr ts"
    if ok: "\<forall>i<?n.
        dim_size (inputs (batch ! 0) ! i) 0 \<noteq> 0 \<and>
        TF_CALL_ALL_TYPES rt (dtype (inputs (batch ! 0) ! i)) \<and>
        (\<forall>task\<in>set batch. tl (shape (inputs task ! i)) = tl (shape (inputs (batch ! 0) ! i))) \<and>
        allocate_temp ctx (dtype (inputs (batch ! 0) ! i))
          ((sum_list (map (\<lambda>task. dim_size (inputs task ! i) 0) batch) + nat ?pad)
           # tl (shape (inputs (batch ! 0) ! i))) = OK"
  proof -
    have "\<exists>t. concat_edge rt ?pad batch ctx i = Inr t" if i: "i \<in> set [0..<?n]" for i
    proof -
      from i have i': "i < ?n" by simp
      have alli: "\<forall>task\<in>set batch. i < length (inputs task)" using all i' by simp
      from ok i' show ?thesis
        by (intro concat_edge_total [OF pos nonempty alli wf]) blast+
    qed
    then have "\<exists>ts. concat_edges rt ?pad batch ctx [0..<?n] = Inr ts"
      by (intro concat_edges_total) blast
    then show ?thesis unfolding C .
  qed
  have A: "length ts = ?n \<and>
       (\<forall>i<length ts.
          flat (ts ! i) =
            concat (map (\<lambda>task. flat (inputs task ! i)) batch)
            @ concat (replicate (nat ?pad)
                (take (row_elements (inputs (batch ! 0) ! i)) (flat (inputs (batch ! 0) ! i)))) \<and>
          shape (ts ! i) =
            (sum_list (map (\<lambda>task. dim_size (inputs task ! i) 0) batch) + nat ?pad)
            # tl (shape (inputs (batch ! 0) ! i)))"
    if ts: "ConcatInputTensors rt allowed batch ctx = Inr ts" for ts
  proof -
    from ts C have "concat_edges rt ?pad batch ctx [0..<?n] = Inr ts" by simp
    from concat_edges_Inr [OF this] have len: "length ts = ?n"
      and each: "\<forall>k<?n. concat_edge rt ?pad batch ctx k = Inr (ts ! k)" by auto
    show ?thesis using len each concat_edge_Inr [OF _ pos nonempty wf] by auto
  qed
  have B: "ConcatInputTensors rt allowed batch ctx =
         Inl (Error InvalidArgument
           ''Cannot use an empty tensor with zero rows as padding when batching.'')"
    if z: "\<exists>i<?n. dim_size (inputs (batch ! 0) ! i) 0 = 0"
  proof -
    from z obtain i where i: "i < ?n" and zero: "dim_size (inputs (batch ! 0) ! i) 0 = 0" by blast
    have b0: "batch ! 0 \<in> set batch" using nonempty by simp
    with registered have "RegisterInput_inputs (inputs (batch ! 0)) = Inr (inputs (batch ! 0))"
      by blast
    from RegisterInput_dim0 [OF this i] zero
    have zero0: "dim_size (inputs (batch ! 0) ! 0) 0 = 0" by simp
    have n0: "0 < ?n" using i by (cases "inputs (batch ! 0)") simp_all
    have all0: "\<forall>task\<in>set batch. 0 < length (inputs task)" using all n0 by simp
    have e0: "concat_edge rt ?pad batch ctx 0 = Inl (Error InvalidArgument
      ''Cannot use an empty tensor with zero rows as padding when batching.'')"
      using pos all0 nonempty zero0 by (rule concat_edge_zero_rows)
    have "[0..<?n] = 0 # [1..<?n]" using n0 by (simp add: upt_conv_Cons)
    then show ?thesis unfolding C by (simp add: e0)
  qed
  have S': "\<exists>ts. ConcatInputTensors rt allowed batch ctx = Inr ts \<and>
       length ts = ?n \<and>
       (\<forall>i<length ts.
          flat (ts ! i) =
            concat (map (\<lambda>task. flat (inputs task ! i)) batch)
            @ concat (replicate (nat ?pad)
                (take (row_elements (inputs (batch ! 0) ! i)) (flat (inputs (batch ! 0) ! i)))) \<and>
          shape (ts ! i) =
            (sum_list (map (\<lambda>task. dim_size (inputs task ! i) 0) batch) + nat ?pad)
            # tl (shape (inputs (batch ! 0) ! i)))"
    if ok: "\<forall>i<?n.
        dim_size (inputs (batch ! 0) ! i) 0 \<noteq> 0 \<and>
        TF_CALL_ALL_TYPES rt (dtype (inputs (batch ! 0) ! i)) \<and>
        (\<forall>task\<in>set batch. tl (shape (inputs task ! i)) = tl (shape (inputs (batch ! 0) ! i))) \<and>
        allocate_temp ctx (dtype (inputs (batch ! 0) ! i))
          ((sum_list (map (\<lambda>task. dim_size (inputs task ! i) 0) batch) + nat ?pad)
           # tl (shape (inputs (batch ! 0) ! i))) = OK"
  proof -
    from S [OF ok] obtain ts where ts: "ConcatInputTensors rt allowed batch ctx = Inr ts" ..
    from ts A [OF ts] show ?thesis by blast
  qed
  have AA: "\<forall>ts. ConcatInputTensors rt allowed batch ctx = Inr ts \<longrightarrow>
       length ts = ?n \<and>
       (\<forall>i<length ts.
          flat (ts ! i) =
            concat (map (\<lambda>task. flat (inputs task ! i)) batch)
            @ concat (replicate (nat ?pad)
                (take (row_elements (inputs (batch ! 0) ! i)) (flat (inputs (batch ! 0) ! i)))) \<and>
          shape (ts ! i) =
            (sum_list (map (\<lambda>task. dim_size (inputs task ! i) 0) batch) + nat ?pad)
            # tl (shape (inputs (batch ! 0) ! i)))"
    using A by blast
  show ?thesis
    unfolding pa [symmetric]
    by (rule conjI [OF refl conjI [OF impI [OF S'] conjI [OF AA impI [OF B]]]])
qed


theorem C6_padding_rows_witness:
  "Batch_size [example_task 11 [10, 20], example_task 12 [30]] = 3 \<and>
   padded_batch_size [2, 4] [example_task 11 [10, 20], example_task 12 [30]] = 4 \<and>
   padding_amount [2, 4] [example_task 11 [10, 20], example_task 12 [30]] = 1 \<and>
   ConcatInputTensors example_runtime [2, 4]
     [example_task 11 [10, 20], example_task 12 [30]] example_context =
     Inr [\<lparr>dtype = DT_other 1, shape = [4], flat = [10, 20, 30, 10]\<rparr>] \<and>
   Batch_size [example_task 11 [], example_task 12 [30]] = 1 \<and>
   padded_batch_size [2, 4] [example_task 11 [], example_task 12 [30]] = 2 \<and>
   ConcatInputTensors example_runtime [2, 4]
     [example_task 11 [], example_task 12 [30]] example_context =
     Inl (Error InvalidArgument
       ''Cannot use an empty tensor with zero rows as padding when batching.'')"
proof -
  let ?batch = "[example_task 11 [10, 20], example_task 12 [30]]"
  have size: "Batch_size ?batch = 3"
    by (simp add: Batch_size_def example_sizes to_size_t_def)
  have padded: "padded_batch_size [2, 4] ?batch = 4"
    by (simp add: padded_batch_size_def size RoundToLowestAllowedBatchSize_def to_int32_def)
  have h1: "Batch_size ?batch < padded_batch_size [2, 4] ?batch"
    and h2: "padded_batch_size [2, 4] ?batch < 2 ^ 31"
    by (simp_all add: size padded)
  have h3: "?batch \<noteq> []" by simp
  have h4: "ValidateBatch ?batch = OK"
    by (simp add: ValidateBatch_def example_task_def)
  have h5: "length (inputs (?batch ! 0)) < 2 ^ 31"
    by (simp add: example_task_def)
  have h6: "\<forall>task\<in>set ?batch. \<forall>t\<in>set (inputs task). well_formed t"
    using example_well_formed by simp
  have h7: "\<forall>task\<in>set ?batch. RegisterInput_inputs (inputs task) = Inr (inputs task)"
    using example_registered by simp
  note inst = C6_padding_rows [OF h1 h2 h3 h4 h5 h6 h7, of example_runtime example_context]
  have pad: "padding_amount [2, 4] ?batch = 1" using inst by (simp add: size padded)
  have ok: "ConcatInputTensors example_runtime [2, 4] ?batch example_context =
     Inr [\<lparr>dtype = DT_other 1, shape = [4], flat = [10, 20, 30, 10]\<rparr>]"
    unfolding ConcatInputTensors_def Let_def pad
    by (simp add: num_tasks_def example_inputs to_int32_def
        concat_edge_def at_def padding_tensors_def example_tensor_def dim_size_def
        Concat_def example_runtime_def Concat_T_def dims_def NumElements_def
        example_context_def Slice_def row_elements_def)
  let ?bad = "[example_task 11 [], example_task 12 [30]]"
  have bsize: "Batch_size ?bad = 1"
    by (simp add: Batch_size_def example_sizes to_size_t_def)
  have bpadded: "padded_batch_size [2, 4] ?bad = 2"
    by (simp add: padded_batch_size_def bsize RoundToLowestAllowedBatchSize_def to_int32_def)
  have b1: "Batch_size ?bad < padded_batch_size [2, 4] ?bad"
    and b2: "padded_batch_size [2, 4] ?bad < 2 ^ 31"
    by (simp_all add: bsize bpadded)
  have b3: "?bad \<noteq> []" by simp
  have b4: "ValidateBatch ?bad = OK"
    by (simp add: ValidateBatch_def example_task_def)
  have b5: "length (inputs (?bad ! 0)) < 2 ^ 31"
    by (simp add: example_task_def)
  have b6: "\<forall>task\<in>set ?bad. \<forall>t\<in>set (inputs task). well_formed t"
    using example_well_formed by simp
  have b7: "\<forall>task\<in>set ?bad. RegisterInput_inputs (inputs task) = Inr (inputs task)"
    using example_registered by simp
  have zero: "\<exists>i<length (inputs (?bad ! 0)). dim_size (inputs (?bad ! 0) ! i) 0 = 0"
    by (simp add: example_inputs example_tensor_def dim_size_def)
  from C6_padding_rows [OF b1 b2 b3 b4 b5 b6 b7, of example_runtime example_context] zero
  have bad: "ConcatInputTensors example_runtime [2, 4] ?bad example_context =
     Inl (Error InvalidArgument
       ''Cannot use an empty tensor with zero rows as padding when batching.'')"
    by blast
  from size padded pad ok bsize bpadded bad show ?thesis by simp
qed

section \<open>Done-callbacks of a processed batch\<close>

lemma done_callbacks_invoked_append [simp]:
  "done_callbacks_invoked (xs @ ys) = done_callbacks_invoked xs @ done_callbacks_invoked ys"
  by (simp add: done_callbacks_invoked_def)

lemma done_callbacks_invoked_simps [simp]:
  "done_callbacks_invoked [] = []"
  "done_callbacks_invoked (Invoke cb # evs) = cb # done_callbacks_invoked evs"
  "done_callbacks_invoked (SetStatus c st # evs) = done_callbacks_invoked evs"
  "done_callbacks_invoked (SetOutput c i t # evs) = done_callbacks_invoked evs"
  by (simp_all add: done_callbacks_invoked_def)

lemma cleanup_loop_trace:
  "\<exists>evs. trace (cleanup_loop st batch w) = trace w @ evs \<and>
     done_callbacks_invoked evs = map done_callback batch \<and>
     (\<forall>task\<in>set batch. \<not> is_partial task \<longrightarrow>
        SetStatus (ctx_id (op_context task)) st \<in> set evs)"
proof (induction batch arbitrary: w)
  case Nil
  show ?case by simp
next
  case (Cons task rest)
  let ?w1 = "if is_partial task
     then w\<lparr>statuses := (statuses w)
            (status task := ThreadSafeStatus_Update (statuses w (status task)) st)\<rparr>
     else emit (SetStatus (ctx_id (op_context task)) st) w"
  let ?w2 = "emit (Invoke (done_callback task)) ?w1"
  from Cons.IH [of ?w2] obtain evs where
    t: "trace (cleanup_loop st rest ?w2) = trace ?w2 @ evs"
    and d: "done_callbacks_invoked evs = map done_callback rest"
    and s: "\<forall>task\<in>set rest. \<not> is_partial task \<longrightarrow>
        SetStatus (ctx_id (op_context task)) st \<in> set evs" by blast
  let ?pre = "(if is_partial task then [] else [SetStatus (ctx_id (op_context task)) st])
      @ [Invoke (done_callback task)]"
  have w2: "trace ?w2 = trace w @ ?pre" by (simp add: emit_def)
  have "trace (cleanup_loop st (task # rest) w) = trace w @ (?pre @ evs)"
    using t w2 by (simp add: Let_def)
  moreover have "done_callbacks_invoked (?pre @ evs) = map done_callback (task # rest)"
    using d by simp
  moreover have "\<forall>t\<in>set (task # rest). \<not> is_partial t \<longrightarrow>
        SetStatus (ctx_id (op_context t)) st \<in> set (?pre @ evs)"
    using s by auto
  ultimately show ?case by blast
qed

lemma ThreadSafeStatus_Update_idem:
  "ThreadSafeStatus_Update (ThreadSafeStatus_Update s st) st = ThreadSafeStatus_Update s st"
  by (simp add: ThreadSafeStatus_Update_def)

lemma cleanup_loop_statuses:
  "statuses (cleanup_loop st batch w) sid =
     (if \<exists>task\<in>set batch. is_partial task \<and> status task = sid
      then ThreadSafeStatus_Update (statuses w sid) st else statuses w sid)"
proof (induction batch arbitrary: w)
  case Nil
  show ?case by simp
next
  case (Cons task rest)
  show ?case
    by (auto simp: Let_def Cons.IH emit_def ThreadSafeStatus_Update_idem)
qed

lemma scatter_output_keeps:
  "\<exists>evs. trace (scatter_output i split_tensor j batch w) = trace w @ evs \<and>
     done_callbacks_invoked evs = [] \<and>
     statuses (scatter_output i split_tensor j batch w) = statuses w"
proof (induction batch arbitrary: w j)
  case Nil
  show ?case by simp
next
  case (Cons task rest)
  show ?case
  proof (cases "is_partial task")
    case True
    with Cons.IH [of "Suc j" "w\<lparr>matrices := (matrices w)
               (output_matrix task :=
                  (matrices w (output_matrix task))
                    [split_index task :=
                       (matrices w (output_matrix task) ! split_index task)
                         [i := split_tensor ! j]])\<rparr>"]
    show ?thesis by simp
  next
    case False
    from Cons.IH [of "Suc j" "emit (SetOutput (ctx_id (op_context task)) i (split_tensor ! j)) w"]
    obtain evs where "trace (scatter_output i split_tensor (Suc j) rest
         (emit (SetOutput (ctx_id (op_context task)) i (split_tensor ! j)) w)) =
        trace w @ (SetOutput (ctx_id (op_context task)) i (split_tensor ! j) # evs)"
      and "done_callbacks_invoked evs = []"
      and "statuses (scatter_output i split_tensor (Suc j) rest
         (emit (SetOutput (ctx_id (op_context task)) i (split_tensor ! j)) w)) = statuses w"
      by (auto simp: emit_def)
    with False show ?thesis
      by (intro exI [of _ "SetOutput (ctx_id (op_context task)) i (split_tensor ! j) # evs"]) simp
  qed
qed

lemma split_outputs_loop_keeps:
  "split_outputs_loop tensor_Split allowed batch i outs w = (st, w') \<Longrightarrow>
   \<exists>evs. trace w' = trace w @ evs \<and> done_callbacks_invoked evs = [] \<and> statuses w' = statuses w"
proof (induction outs arbitrary: w i)
  case Nil
  then show ?case by simp
next
  case (Cons output_tensor rest)
  show ?case
  proof (cases "split_outputs_loop tensor_Split allowed batch i (output_tensor # rest) w =
      split_outputs_loop tensor_Split allowed batch (Suc i) rest
        (scatter_output i (projr (tensor_Split output_tensor
             (task_sizes_plus_optional_padding allowed batch))) 0 batch w)")
    case True
    let ?w1 = "scatter_output i (projr (tensor_Split output_tensor
             (task_sizes_plus_optional_padding allowed batch))) 0 batch w"
    from scatter_output_keeps [of i _ 0 batch w] obtain evs1 where
      1: "trace ?w1 = trace w @ evs1" "done_callbacks_invoked evs1 = []" "statuses ?w1 = statuses w"
      by blast
    from Cons.IH [of "Suc i" ?w1] True Cons.prems obtain evs2 where
      2: "trace w' = trace ?w1 @ evs2" "done_callbacks_invoked evs2 = []" "statuses w' = statuses ?w1"
      by auto
    from 1 2 show ?thesis by (intro exI [of _ "evs1 @ evs2"]) simp
  next
    case False
    then have "w' = w" using Cons.prems
      by (auto split: if_splits sum.splits)
    then show ?thesis by simp
  qed
qed

lemma SplitOutputTensors_keeps:
  "SplitOutputTensors tensor_Split allowed outs batch w = (st, w') \<Longrightarrow>
   \<exists>evs. trace w' = trace w @ evs \<and> done_callbacks_invoked evs = [] \<and> statuses w' = statuses w"
  by (auto simp: SplitOutputTensors_def split: if_splits dest: split_outputs_loop_keeps)


lemma cleanup_after:
  assumes t0: "trace w0 = trace w @ evs0" and d0: "done_callbacks_invoked evs0 = []"
    and s0: "statuses w0 = statuses w"
  shows "\<exists>evs. trace (snd (cleanup_fn batch st (False, w0))) = trace w @ evs \<and>
     done_callbacks_invoked evs = map done_callback batch \<and>
     (\<forall>task\<in>set batch.
        (is_partial task \<longrightarrow>
           statuses (snd (cleanup_fn batch st (False, w0))) (status task) =
             ThreadSafeStatus_Update (statuses w (status task)) st) \<and>
        (\<not> is_partial task \<longrightarrow> SetStatus (ctx_id (op_context task)) st \<in> set evs))"
proof -
  have c: "snd (cleanup_fn batch st (False, w0)) = cleanup_loop st batch w0"
    by (simp add: cleanup_fn_def)
  from cleanup_loop_trace [of st batch w0] obtain evs where
    t: "trace (cleanup_loop st batch w0) = trace w0 @ evs"
    and d: "done_callbacks_invoked evs = map done_callback batch"
    and s: "\<forall>task\<in>set batch. \<not> is_partial task \<longrightarrow>
        SetStatus (ctx_id (op_context task)) st \<in> set evs" by blast
  have "trace (cleanup_loop st batch w0) = trace w @ (evs0 @ evs)"
    using t t0 by simp
  moreover have "done_callbacks_invoked (evs0 @ evs) = map done_callback batch"
    using d d0 by simp
  moreover have "\<forall>task\<in>set batch.
        (is_partial task \<longrightarrow>
           statuses (cleanup_loop st batch w0) (status task) =
             ThreadSafeStatus_Update (statuses w (status task)) st) \<and>
        (\<not> is_partial task \<longrightarrow> SetStatus (ctx_id (op_context task)) st \<in> set (evs0 @ evs))"
    using s s0 by (auto simp: cleanup_loop_statuses)
  ultimately show ?thesis unfolding c by blast
qed

lemma ProcessFuncBatch_cases:
  assumes "batch \<noteq> []"
    and "ProcessFuncBatch rt tensor_Split Run allowed batch w = (st, w')"
  shows "\<exists>w0 evs0. w' = snd (cleanup_fn batch st (False, w0)) \<and>
     trace w0 = trace w @ evs0 \<and> done_callbacks_invoked evs0 = [] \<and> statuses w0 = statuses w"
proof -
  let ?ctx = "op_context (batch ! (num_tasks batch - 1))"
  have triv: "trace w = trace w @ [] \<and> done_callbacks_invoked [] = [] \<and> statuses w = statuses w"
    by simp
  show ?thesis
  proof (cases "ValidateBatch batch")
    case (Some e)
    with assms have "st = Some e" "w' = snd (cleanup_fn batch st (False, w))"
      by (auto simp: ProcessFuncBatch_def Let_def)
    with triv show ?thesis by blast
  next
    case None
    note valid = this
    show ?thesis
    proof (cases "ConcatInputTensors rt allowed batch ?ctx")
      case (Inl e)
      with assms valid have "st = Some e" "w' = snd (cleanup_fn batch st (False, w))"
        by (auto simp: ProcessFuncBatch_def Let_def)
      with triv show ?thesis by blast
    next
      case (Inr ts)
      note concat = this
      obtain rs outs where run:
        "Run (ts @ captured_inputs (batch ! (num_tasks batch - 1))) = (rs, outs)"
        by (cases "Run (ts @ captured_inputs (batch ! (num_tasks batch - 1)))") auto
      show ?thesis
      proof (cases rs)
        case (Some e)
        with assms valid concat run
        have "st = Some e" "w' = snd (cleanup_fn batch st (False, w))"
          by (auto simp: ProcessFuncBatch_def Let_def)
        with triv show ?thesis by blast
      next
        case None
        obtain fs w0 where split:
          "SplitOutputTensors tensor_Split allowed outs batch w = (fs, w0)"
          by (cases "SplitOutputTensors tensor_Split allowed outs batch w") auto
        with assms valid concat run None
        have "st = fs" "w' = snd (cleanup_fn batch st (False, w0))"
          by (auto simp: ProcessFuncBatch_def Let_def)
        with SplitOutputTensors_keeps [OF split] show ?thesis by blast
      qed
    qed
  qed
qed

lemma ProcessFuncBatch_status:
  assumes "batch \<noteq> []"
    and "ProcessFuncBatch rt tensor_Split Run allowed batch w = (st, w')"
  shows "(\<forall>e. ValidateBatch batch = Some e \<longrightarrow> st = Some e) \<and>
     (\<forall>e. ValidateBatch batch = OK \<longrightarrow>
        ConcatInputTensors rt allowed batch (op_context (batch ! (num_tasks batch - 1))) = Inl e \<longrightarrow>
        st = Some e) \<and>
     (\<forall>ts e outs. ValidateBatch batch = OK \<longrightarrow>
        ConcatInputTensors rt allowed batch (op_context (batch ! (num_tasks batch - 1))) = Inr ts \<longrightarrow>
        Run (ts @ captured_inputs (batch ! (num_tasks batch - 1))) = (Some e, outs) \<longrightarrow>
        st = Some e) \<and>
     (\<forall>ts outs. ValidateBatch batch = OK \<longrightarrow>
        ConcatInputTensors rt allowed batch (op_context (batch ! (num_tasks batch - 1))) = Inr ts \<longrightarrow>
        Run (ts @ captured_inputs (batch ! (num_tasks batch - 1))) = (OK, outs) \<longrightarrow>
        st = fst (SplitOutputTensors tensor_Split allowed outs batch w))"
  using assms by (auto simp: ProcessFuncBatch_def Let_def split: prod.splits)

text \<open>
  Claim C2: when \<open>ProcessFuncBatch\<close> has processed a non-empty batch, whatever the
  validation, the concatenation, the function run and the splitting of the outputs
  gave, the done-callbacks invoked during the call are exactly those of the tasks of
  the batch, one invocation per task, in task order; the status \<open>st\<close> that the call
  ended with has been passed to \<open>ThreadSafeStatus::Update\<close> of the shared status of
  every partial task and to \<open>SetStatus\<close> of the context of every other task; and \<open>st\<close>
  is the error of the validation, of the concatenation, or of the function run when one
  of them failed, and the status of \<open>SplitOutputTensors\<close> otherwise.
\<close>

theorem C2_done_callbacks_once:
  assumes "batch \<noteq> []"
    and "ProcessFuncBatch rt tensor_Split Run allowed batch w = (st, w')"
  shows "\<exists>evs. trace w' = trace w @ evs \<and>
     done_callbacks_invoked evs = map done_callback batch \<and>
     (\<forall>task\<in>set batch.
        (is_partial task \<longrightarrow>
           statuses w' (status task) = ThreadSafeStatus_Update (statuses w (status task)) st) \<and>
        (\<not> is_partial task \<longrightarrow> SetStatus (ctx_id (op_context task)) st \<in> set evs)) \<and>
     (\<forall>e. ValidateBatch batch = Some e \<longrightarrow> st = Some e) \<and>
     (\<forall>e. ValidateBatch batch = OK \<longrightarrow>
        ConcatInputTensors rt allowed batch (op_context (batch ! (num_tasks batch - 1))) = Inl e \<longrightarrow>
        st = Some e) \<and>
     (\<forall>ts e outs. ValidateBatch batch = OK \<longrightarrow>
        ConcatInputTensors rt allowed batch (op_context (batch ! (num_tasks batch - 1))) = Inr ts \<longrightarrow>
        Run (ts @ captured_inputs (batch ! (num_tasks batch - 1))) = (Some e, outs) \<longrightarrow>
        st = Some e) \<and>
     (\<forall>ts outs. ValidateBatch batch = OK \<longrightarrow>
        ConcatInputTensors rt allowed batch (op_context (batch ! (num_tasks batch - 1))) = Inr ts \<longrightarrow>
        Run (ts @ captured_inputs (batch ! (num_tasks batch - 1))) = (OK, outs) \<longrightarrow>
        st = fst (SplitOutputTensors tensor_Split allowed outs batch w))"
proof -
  from ProcessFuncBatch_cases [OF assms] obtain w0 evs0 where
    w': "w' = snd (cleanup_fn batch st (False, w0))"
    and 0: "trace w0 = trace w @ evs0" "done_callbacks_invoked evs0 = []"
       "statuses w0 = statuses w" by blast
  from cleanup_after [OF 0, of batch st] obtain evs where
    "trace w' = trace w @ evs" "done_callbacks_invoked evs = map done_callback batch"
    "\<forall>task\<in>set batch.
        (is_partial task \<longrightarrow>
           statuses w' (status task) = ThreadSafeStatus_Update (statuses w (status task)) st) \<and>
        (\<not> is_partial task \<longrightarrow> SetStatus (ctx_id (op_context task)) st \<in> set evs)"
    unfolding w' by blast
  with ProcessFuncBatch_status [OF assms] show ?thesis by blast
qed

theorem C2_done_callbacks_once_witness:
  "ProcessFuncBatch example_runtime (\<lambda>t sizes. Inr [])
     (\<lambda>args. (Some (Error Internal ''compute''), [])) []
     [example_task 11 [10, 20], (example_task 12 [30])\<lparr>is_partial := True\<rparr>] example_world =
   (Some (Error Internal ''compute''),
    \<lparr>statuses = (\<lambda>a. OK)(12 := Some (Error Internal ''compute'')),
     matrices = (\<lambda>a. []),
     trace = [SetStatus 11 (Some (Error Internal ''compute'')), Invoke (Done 11),
              Invoke (Done 12)]\<rparr>) \<and>
   (\<exists>evs. [SetStatus 11 (Some (Error Internal ''compute'')), Invoke (Done 11),
            Invoke (Done 12)] = [] @ evs \<and>
      done_callbacks_invoked evs = [Done 11, Done 12])"
proof -
  let ?batch = "[example_task 11 [10, 20], (example_task 12 [30])\<lparr>is_partial := True\<rparr>]"
  let ?e = "Error Internal ''compute''"
  let ?w' = "\<lparr>statuses = (\<lambda>a. OK)(12 := Some ?e), matrices = (\<lambda>a. []),
     trace = [SetStatus 11 (Some ?e), Invoke (Done 11), Invoke (Done 12)]\<rparr>"
  have ne: "?batch \<noteq> []" by simp
  have valid: "ValidateBatch ?batch = OK"
    by (simp add: ValidateBatch_def example_inputs)
  have pad: "padding_amount [] ?batch = 0"
    by (simp add: padding_amount_def padded_batch_size_def RoundToLowestAllowedBatchSize_def
        narrow_diff_zero)
  have concat: "ConcatInputTensors example_runtime [] ?batch
      (op_context (?batch ! (num_tasks ?batch - 1))) =
      Inr [\<lparr>dtype = DT_other 1, shape = [3], flat = [10, 20, 30]\<rparr>]"
    unfolding ConcatInputTensors_def Let_def pad
    by (simp add: num_tasks_def example_inputs to_int32_def
        concat_edge_def at_def padding_tensors_def example_tensor_def dim_size_def
        Concat_def example_runtime_def Concat_T_def dims_def NumElements_def
        example_context_def example_task_def)
  have run: "ProcessFuncBatch example_runtime (\<lambda>t sizes. Inr [])
     (\<lambda>args. (Some ?e, [])) [] ?batch example_world = (Some ?e, ?w')"
    unfolding ProcessFuncBatch_def Let_def valid concat
    by (simp add: cleanup_fn_def emit_def example_world_def example_task_def
        example_context_def ThreadSafeStatus_Update_def)
  from C2_done_callbacks_once [OF ne run] run show ?thesis
    by (simp add: example_world_def del: fun_upd_apply)
qed


section \<open>Splitting an input task\<close>

lemma to_int32_id': "- (2 ^ 31) \<le> x \<Longrightarrow> x < 2 ^ 31 \<Longrightarrow> to_int32 x = x"
  by (simp add: to_int32_def signed_take_bit_int_eq_self)

lemma output_task_sizes_loop_result:
  assumes "0 < max_batch_size" and "max_batch_size < 2 ^ 31"
    and "0 < left" and "left < 2 ^ 31"
  shows "\<exists>k last_size. output_task_sizes_loop left max_batch_size acc =
            Some (acc @ replicate k max_batch_size @ [last_size]) \<and>
          0 < last_size \<and> last_size \<le> max_batch_size \<and>
          int k * max_batch_size + last_size = left"
  using assms(3,4)
proof (induction "nat left" arbitrary: left acc rule: less_induct)
  case less
  have narrow: "to_int32 (left - max_batch_size) = left - max_batch_size"
    using less.prems assms(1,2) by (intro to_int32_id') linarith+
  have step: "output_task_sizes_loop left max_batch_size acc =
      output_task_sizes_loop (left - max_batch_size) max_batch_size
        (acc @ [min left max_batch_size])"
    using less.prems(1) by (subst output_task_sizes_loop.simps) (simp add: narrow)
  show ?case
  proof (cases "left \<le> max_batch_size")
    case True
    then have "output_task_sizes_loop left max_batch_size acc = Some (acc @ [left])"
      unfolding step by (subst output_task_sizes_loop.simps) (simp add: min_def)
    then show ?thesis using True less.prems(1)
      by (intro exI [of _ 0] exI [of _ left]) simp
  next
    case False
    then have pos: "0 < left - max_batch_size" by simp
    have lt: "left - max_batch_size < 2 ^ 31" using less.prems(2) assms(1) by linarith
    have dec: "nat (left - max_batch_size) < nat left" using assms(1) pos by linarith
    from less.hyps [OF dec pos lt, of "acc @ [min left max_batch_size]"]
    obtain k last_size where
      r: "output_task_sizes_loop (left - max_batch_size) max_batch_size
            (acc @ [min left max_batch_size]) =
          Some ((acc @ [min left max_batch_size]) @ replicate k max_batch_size @ [last_size])"
      and l: "0 < last_size" "last_size \<le> max_batch_size"
      and s: "int k * max_batch_size + last_size = left - max_batch_size" by blast
    have m: "min left max_batch_size = max_batch_size" using False by simp
    have "output_task_sizes_loop left max_batch_size acc =
        Some (acc @ replicate (Suc k) max_batch_size @ [last_size])"
      using r unfolding step m by simp
    moreover have "int (Suc k) * max_batch_size + last_size = left"
      using s by (simp add: algebra_simps)
    ultimately show ?thesis using l by blast
  qed
qed

lemma to_int64_id31: "0 \<le> x \<Longrightarrow> x < 2 ^ 31 \<Longrightarrow> to_int64 x = x"
proof -
  assume a: "0 \<le> x" "x < 2 ^ 31"
  have "(2::int) ^ 31 < 2 ^ 63" by simp
  with a have "x < 2 ^ 63" by linarith
  with a show ?thesis by (simp add: to_int64_def signed_take_bit_int_eq_self)
qed

lemma output_task_sizes_result:
  assumes slot: "0 \<le> open_slot" and max: "0 < max_batch_size" "max_batch_size < 2 ^ 31"
    and larger: "open_slot < BatchTask_size input_task"
    and fits: "BatchTask_size input_task < 2 ^ 31"
  shows "\<exists>k last_size.
      output_task_sizes input_task open_slot max_batch_size =
        Some ((if open_slot > 0 then [open_slot] else []) @ replicate k max_batch_size @ [last_size]) \<and>
      0 < last_size \<and> last_size \<le> max_batch_size \<and>
      sum_list ((if open_slot > 0 then [open_slot] else []) @ replicate k max_batch_size @ [last_size])
        = BatchTask_size input_task"
proof -
  let ?size = "BatchTask_size input_task"
  have s64: "to_int64 ?size = ?size"
    using BatchTask_size_nonneg fits by (rule to_int64_id31)
  have d: "0 < ?size - open_slot" "?size - open_slot < 2 ^ 31"
    using slot larger fits by linarith+
  have d64: "to_int64 (?size - open_slot) = ?size - open_slot"
    using d by (intro to_int64_id31) linarith+
  have d32: "to_int32 (?size - open_slot) = ?size - open_slot"
    using d by (intro to_int32_id') linarith+
  from output_task_sizes_loop_result [OF max d,
      of "if open_slot > 0 then [open_slot] else []"]
  obtain k last_size where
    r: "output_task_sizes_loop (?size - open_slot) max_batch_size
          (if open_slot > 0 then [open_slot] else []) =
        Some ((if open_slot > 0 then [open_slot] else []) @ replicate k max_batch_size @ [last_size])"
    and l: "0 < last_size" "last_size \<le> max_batch_size"
    and s: "int k * max_batch_size + last_size = ?size - open_slot" by blast
  have "output_task_sizes input_task open_slot max_batch_size =
      Some ((if open_slot > 0 then [open_slot] else []) @ replicate k max_batch_size @ [last_size])"
    unfolding output_task_sizes_def Let_def s64 d64 d32 by (rule r)
  moreover have "sum_list ((if open_slot > 0 then [open_slot] else [])
      @ replicate k max_batch_size @ [last_size]) = ?size"
    using s slot by (simp add: sum_list_replicate)
  ultimately show ?thesis using l by blast
qed


lemma Slice_dim0: "shape t \<noteq> [] \<Longrightarrow> dim_size (Slice t p (p + n)) 0 = n"
  by (cases "shape t") (simp_all add: Slice_def dim_size_def)

lemma pieces_dims:
  "shape input \<noteq> [] \<Longrightarrow> map (\<lambda>t. dim_size t 0) (pieces input p sizes) = map nat sizes"
  by (induction sizes arbitrary: p) (simp_all add: Slice_dim0)

lemma SplitCPU_loop_dims:
  "SplitCPU_loop ctx input p sizes = Inr outs \<Longrightarrow> shape input \<noteq> [] \<Longrightarrow>
   map (\<lambda>t. dim_size t 0) outs = map nat sizes"
proof (induction sizes arbitrary: p outs)
  case Nil
  then show ?case by simp
next
  case (Cons n sizes)
  from Cons.prems(1) obtain outs' where
    o: "SplitCPU_loop ctx input (p + nat n) sizes = Inr outs'"
    and e: "outs = Slice input p (p + nat n) # outs'"
    by (auto split: option.splits sum.splits)
  from Cons.IH [OF o Cons.prems(2)] e Cons.prems(2) show ?case
    by (simp add: Slice_dim0)
qed

lemma Split_dims:
  assumes "Split rt ctx input sizes = Inr outs" and "shape input \<noteq> []"
  shows "map (\<lambda>t. dim_size t 0) outs = map nat sizes"
proof -
  from assms(1) have T: "Split_T rt ctx input sizes = Inr outs"
    by (auto simp: Split_def split: if_splits)
  show ?thesis
  proof (cases "length sizes = 1 \<and> sizes ! 0 = int (dim_size input 0)")
    case True
    then obtain n where n: "sizes = [n]" by (cases sizes) auto
    with True T have "outs = [input]"
      by (auto simp: Split_T_def SplitEasyCases_def split: if_splits)
    with True n show ?thesis by simp
  next
    case False
    show ?thesis
    proof (cases "IsInnerDimsSizeAligned rt input")
      case True
      with False T have "outs = pieces input 0 sizes"
        by (auto simp: Split_T_def SplitEasyCases_def split: if_splits)
      then show ?thesis using assms(2) by (simp add: pieces_dims)
    next
      case aligned: False
      with False T have "SplitCPU_loop ctx input 0 sizes = Inr outs"
        by (auto simp: Split_T_def SplitEasyCases_def SplitCPU_def split: if_splits)
      then show ?thesis using assms(2) by (rule SplitCPU_loop_dims)
    qed
  qed
qed

lemma map_zip_fst:
  "length xs = length ys \<Longrightarrow> map (\<lambda>(x, y). f x) (zip xs ys) = map f xs"
  by (induction xs ys rule: list_induct2) simp_all

lemma map_zip_snd:
  "length xs = length ys \<Longrightarrow> map (\<lambda>(x, y). g y) (zip xs ys) = map g ys"
  by (induction xs ys rule: list_induct2) simp_all

lemma distribute_inputs_first:
  assumes "distribute_inputs rt ctx sizes ins tasks = Inr tasks'"
    and "length tasks = length sizes"
    and "\<forall>t\<in>set tasks. inputs t \<noteq> []"
  shows "map (\<lambda>t. inputs t ! 0) tasks' = map (\<lambda>t. inputs t ! 0) tasks"
  using assms
proof (induction ins arbitrary: tasks)
  case Nil
  then show ?case by simp
next
  case (Cons input_tensor rest)
  from Cons.prems(1) obtain outs where
    o: "Split rt ctx input_tensor sizes = Inr outs" and len: "length outs = length sizes"
    and r: "distribute_inputs rt ctx sizes rest
        (map (\<lambda>(output_task, t). output_task\<lparr>inputs := inputs output_task @ [t]\<rparr>)
          (zip tasks outs)) = Inr tasks'"
    by (auto split: sum.splits if_splits)
  let ?next = "map (\<lambda>(output_task, t). output_task\<lparr>inputs := inputs output_task @ [t]\<rparr>)
          (zip tasks outs)"
  have l: "length ?next = length sizes" using len Cons.prems(2) by simp
  have ne: "\<forall>t\<in>set ?next. inputs t \<noteq> []" by auto
  have "map (\<lambda>t. inputs t ! 0) ?next =
      map (\<lambda>(output_task, t). (inputs output_task @ [t]) ! 0) (zip tasks outs)"
    by (simp add: case_prod_unfold comp_def)
  also have "\<dots> = map (\<lambda>(output_task, t). inputs output_task ! 0) (zip tasks outs)"
    using Cons.prems(3) by (auto simp: nth_append dest: set_zip_leftD)
  also have "\<dots> = map (\<lambda>t. inputs t ! 0) tasks"
    using len Cons.prems(2) by (intro map_zip_fst) simp
  finally show ?case using Cons.IH [OF r l ne] by simp
qed

lemma distribute_inputs_sizes:
  assumes "distribute_inputs rt ctx sizes (input_tensor # rest) tasks = Inr tasks'"
    and "length tasks = length sizes"
    and "\<forall>t\<in>set tasks. inputs t = []"
    and "shape input_tensor \<noteq> []"
  shows "map (\<lambda>t. dim_size (inputs t ! 0) 0) tasks' = map nat sizes"
proof -
  from assms(1) obtain outs where
    o: "Split rt ctx input_tensor sizes = Inr outs" and len: "length outs = length sizes"
    and r: "distribute_inputs rt ctx sizes rest
        (map (\<lambda>(output_task, t). output_task\<lparr>inputs := inputs output_task @ [t]\<rparr>)
          (zip tasks outs)) = Inr tasks'"
    by (auto split: sum.splits if_splits)
  let ?next = "map (\<lambda>(output_task, t). output_task\<lparr>inputs := inputs output_task @ [t]\<rparr>)
          (zip tasks outs)"
  have l: "length ?next = length sizes" using len assms(2) by simp
  have ne: "\<forall>t\<in>set ?next. inputs t \<noteq> []" by auto
  have "map (\<lambda>t. inputs t ! 0) ?next =
      map (\<lambda>(output_task, t). (inputs output_task @ [t]) ! 0) (zip tasks outs)"
    by (simp add: case_prod_unfold comp_def)
  also have "\<dots> = map (\<lambda>(output_task, t). t) (zip tasks outs)"
    using assms(3) by (auto dest: set_zip_leftD)
  also have "\<dots> = outs"
    using len assms(2) map_zip_snd [of tasks outs "\<lambda>t. t"] by simp
  finally have first: "map (\<lambda>t. inputs t ! 0) tasks' = outs"
    using distribute_inputs_first [OF r l ne] by simp
  have "map (\<lambda>t. dim_size (inputs t ! 0) 0) tasks' =
      map (\<lambda>t. dim_size t 0) (map (\<lambda>t. inputs t ! 0) tasks')"
    by (simp add: comp_def)
  then show ?thesis unfolding first using Split_dims [OF o assms(4)] by simp
qed


lemma length_le_sum_list:
  "\<forall>n\<in>set (xs :: int list). 0 < n \<and> n < b \<Longrightarrow> int (length xs) \<le> sum_list xs"
proof (induction xs)
  case Nil
  show ?case by simp
next
  case (Cons a xs)
  then have "1 \<le> a" and "int (length xs) \<le> sum_list xs" by simp_all
  then show ?case by simp
qed

lemma BatchTask_size_map:
  "map BatchTask_size tasks =
   map (\<lambda>n. to_size_t (int n)) (map (\<lambda>t. dim_size (inputs t ! 0) 0) tasks)"
  by (induction tasks) (simp_all add: BatchTask_size_def)

text \<open>
  Claim C4: for an input task whose size exceeds \<open>open_batch_remaining_slot\<close>, with a
  slot that is not negative, a positive \<open>max_batch_size\<close> and a task size that fits an
  \<open>int\<close>, the loop over the sizes ends and \<open>output_task_sizes\<close> is the slot (left out
  when it is zero), then some number of entries \<open>max_batch_size\<close>, then a last entry in
  \<open>(0, max_batch_size]\<close>; the entries add up to the size of the input task; and when
  \<open>SplitInputTask\<close> returns OK, the sizes of its output tasks are these entries.
\<close>

theorem C4_split_input_task_sizes:
  assumes slot: "0 \<le> open_slot" and max: "0 < max_batch_size" "max_batch_size < 2 ^ 31"
    and larger: "open_slot < BatchTask_size input_task"
    and fits: "BatchTask_size input_task < 2 ^ 31"
    and has_input: "inputs input_task \<noteq> []" "shape (inputs input_task ! 0) \<noteq> []"
  shows "\<exists>k last_size sizes.
      sizes = (if open_slot > 0 then [open_slot] else [])
                @ replicate k max_batch_size @ [last_size] \<and>
      output_task_sizes input_task open_slot max_batch_size = Some sizes \<and>
      0 < last_size \<and> last_size \<le> max_batch_size \<and>
      sum_list sizes = BatchTask_size input_task \<and>
      (\<exists>r w'. SplitInputTask rt input_task open_slot max_batch_size w = Some (r, w') \<and>
         (\<forall>tasks. r = Inr tasks \<longrightarrow> map BatchTask_size tasks = sizes))"
proof -
  from output_task_sizes_result [OF slot max larger fits]
  obtain k last_size where
    o: "output_task_sizes input_task open_slot max_batch_size =
        Some ((if open_slot > 0 then [open_slot] else []) @ replicate k max_batch_size @ [last_size])"
    and l: "0 < last_size" "last_size \<le> max_batch_size"
    and s: "sum_list ((if open_slot > 0 then [open_slot] else [])
        @ replicate k max_batch_size @ [last_size]) = BatchTask_size input_task" by blast
  let ?sizes = "(if open_slot > 0 then [open_slot] else []) @ replicate k max_batch_size @ [last_size]"
  have each: "\<forall>n\<in>set ?sizes. 0 < n \<and> n < 2 ^ 31"
    using slot max l larger fits by auto
  have "int (length ?sizes) \<le> sum_list ?sizes"
    using each by (rule length_le_sum_list)
  then have len: "int (length ?sizes) < 2 ^ 31" using s fits by linarith
  have n: "nat (to_int32 (int (length ?sizes))) = length ?sizes"
    using len by (simp add: to_int32_id')
  let ?tasks0 = "map (new_split_task input_task) [0..<length ?sizes]"
  let ?r = "distribute_inputs rt (op_context input_task) ?sizes (inputs input_task) ?tasks0"
  let ?w' = "w\<lparr>matrices := (matrices w)
      (output_matrix input_task :=
         map (resize (num_outputs (op_context input_task)) default_Tensor)
           (resize (length ?sizes) [] (matrices w (output_matrix input_task))))\<rparr>"
  have run: "SplitInputTask rt input_task open_slot max_batch_size w = Some (?r, ?w')"
    unfolding SplitInputTask_def o Let_def by (simp only: option.case n)
  have sizes: "map BatchTask_size tasks = ?sizes" if r: "?r = Inr tasks" for tasks
  proof -
    from has_input(1) obtain t0 rest where ins: "inputs input_task = t0 # rest"
      by (cases "inputs input_task") auto
    have sh: "shape t0 \<noteq> []" using has_input(2) ins by simp
    have "map (\<lambda>t. dim_size (inputs t ! 0) 0) tasks = map nat ?sizes"
      using r unfolding ins
      by (rule distribute_inputs_sizes) (simp_all add: new_split_task_def sh)
    then have "map BatchTask_size tasks = map (\<lambda>n. to_size_t (int n)) (map nat ?sizes)"
      using BatchTask_size_map [of tasks] by (simp only:)
    also have "\<dots> = map (\<lambda>n. to_size_t (int (nat n))) ?sizes"
      by (simp only: map_map comp_def)
    also have "\<dots> = map (\<lambda>n. n) ?sizes"
    proof (rule map_cong [OF refl])
      fix n assume "n \<in> set ?sizes"
      with each have "0 < n" "n < 2 ^ 31" by blast+
      then show "to_size_t (int (nat n)) = n" by (simp add: to_size_t_id31)
    qed
    finally show ?thesis by simp
  qed
  from o l s run sizes show ?thesis by blast
qed


theorem C4_split_input_task_sizes_witness:
  "output_task_sizes (example_task 11 [1, 2, 3, 4, 5, 6, 7, 8, 9]) 1 4 = Some [1, 4, 4] \<and>
   (\<exists>w'. SplitInputTask example_runtime (example_task 11 [1, 2, 3, 4, 5, 6, 7, 8, 9]) 1 4
            example_world =
      Some (Inr [(new_split_task (example_task 11 [1, 2, 3, 4, 5, 6, 7, 8, 9]) 0)
                   \<lparr>inputs := [example_tensor [1]]\<rparr>,
                 (new_split_task (example_task 11 [1, 2, 3, 4, 5, 6, 7, 8, 9]) 1)
                   \<lparr>inputs := [example_tensor [2, 3, 4, 5]]\<rparr>,
                 (new_split_task (example_task 11 [1, 2, 3, 4, 5, 6, 7, 8, 9]) 2)
                   \<lparr>inputs := [example_tensor [6, 7, 8, 9]]\<rparr>], w'))"
proof -
  let ?task = "example_task 11 [1, 2, 3, 4, 5, 6, 7, 8, 9]"
  have size: "BatchTask_size ?task = 9" by (simp add: example_sizes to_size_t_def)
  have h: "(0::int) \<le> 1" "(0::int) < 4" "(4::int) < 2 ^ 31" "1 < BatchTask_size ?task"
    "BatchTask_size ?task < 2 ^ 31" "inputs ?task \<noteq> []" "shape (inputs ?task ! 0) \<noteq> []"
    by (simp_all add: size example_inputs example_tensor_def)
  from C4_split_input_task_sizes [OF h, of example_runtime example_world]
  obtain k last_size sizes r w' where
    "output_task_sizes ?task 1 4 = Some sizes"
    and run: "SplitInputTask example_runtime ?task 1 4 example_world = Some (r, w')" by blast
  have sizes: "output_task_sizes ?task 1 4 = Some [1, 4, 4]"
    unfolding output_task_sizes_def Let_def size
    by (simp add: to_int64_def to_int32_def output_task_sizes_loop.simps)
  have pieces: "pieces (example_tensor [1, 2, 3, 4, 5, 6, 7, 8, 9]) 0 [1, 4, 4] =
      [example_tensor [1], example_tensor [2, 3, 4, 5], example_tensor [6, 7, 8, 9]]"
    by (simp add: example_tensor_def Slice_def row_elements_def)
  have split: "Split example_runtime (op_context ?task) (example_tensor [1, 2, 3, 4, 5, 6, 7, 8, 9])
      [1, 4, 4] =
      Inr [example_tensor [1], example_tensor [2, 3, 4, 5], example_tensor [6, 7, 8, 9]]"
    unfolding Split_def Split_T_def SplitEasyCases_def pieces
    by (simp add: example_runtime_def example_tensor_def dim_size_def)
  have "r = Inr [(new_split_task ?task 0)\<lparr>inputs := [example_tensor [1]]\<rparr>,
                 (new_split_task ?task 1)\<lparr>inputs := [example_tensor [2, 3, 4, 5]]\<rparr>,
                 (new_split_task ?task 2)\<lparr>inputs := [example_tensor [6, 7, 8, 9]]\<rparr>]"
    using run unfolding SplitInputTask_def sizes Let_def example_inputs
    by (simp add: split to_int32_def new_split_task_def upt_rec numeral_2_eq_2)
  with run sizes show ?thesis by blast
qed


section \<open>The maps of the unbatch resource\<close>





lemma emplace_present: "emplace k v m = (m', False) \<Longrightarrow> m' = m \<and> k \<in> keys m"
  by (auto simp: emplace_def keys_def map_of_eq_None_iff split: if_splits)






































section \<open>The gradient resource on an empty index\<close>

lemma emplace_fresh: "k \<notin> keys m \<Longrightarrow> emplace k v m = (m @ [(k, v)], True)"
  by (simp add: emplace_def keys_def map_of_eq_None_iff)

lemma emplace_known: "k \<in> keys m \<Longrightarrow> emplace k v m = (m, False)"
  by (auto simp: emplace_def keys_def map_of_eq_None_iff)

text \<open>
  Claim C10: when the data tensor has elements and the index tensor has none,
  \<open>UnbatchGradResource::Compute\<close> returns InvalidArgument and calls nothing. With a
  batch key that has no available tensor yet, the error is the one about the empty
  index and the caller's gradient stays recorded under its key in \<open>available_tensors\<close>;
  with a key that has one already, the error is the one about two runs with the same
  key and the resource is unchanged.
\<close>

theorem C10_empty_index_invalid_argument:
  assumes "NumElements (ctx_input ctx ! 0) > 0" and "NumElements (ctx_input ctx ! 1) = 0"
  shows "UnbatchGrad_Compute rt ctx done ugr =
    (if flat (ctx_input ctx ! 3) ! 0 \<in> keys (available_tensors ugr)
     then (Some (Error InvalidArgument ''Two runs with the same batch key.''), ugr, [])
     else (Some (Error InvalidArgument ''batch_index is empty while the tensor isn't.''),
           ugr\<lparr>available_tensors :=
                 available_tensors ugr @ [(flat (ctx_input ctx ! 3) ! 0, ctx_input ctx ! 2)]\<rparr>,
           []))"
proof (cases "flat (ctx_input ctx ! 3) ! 0 \<in> keys (available_tensors ugr)")
  case True
  show ?thesis
    unfolding UnbatchGrad_Compute_def Let_def emplace_known [OF True]
    using True by (simp only: prod.case simp_thms if_True)
next
  case False
  show ?thesis
    unfolding UnbatchGrad_Compute_def Let_def emplace_fresh [OF False]
    using False assms by (simp only: prod.case simp_thms if_True if_False)
qed

theorem C10_empty_index_invalid_argument_witness:
  "UnbatchGrad_Compute example_runtime
     (example_grad_context 11 (example_tensor [10, 20]) (example_index []) (example_tensor [1, 2]))
     (Done 11)
     \<lparr>available_batches = [], available_tensors = [], desired_tensor_to_batch_map = []\<rparr> =
   (Some (Error InvalidArgument ''batch_index is empty while the tensor isn't.''),
    \<lparr>available_batches = [], available_tensors = [(11, example_tensor [1, 2])],
     desired_tensor_to_batch_map = []\<rparr>, [])"
proof -
  let ?ctx = "example_grad_context 11 (example_tensor [10, 20]) (example_index [])
      (example_tensor [1, 2])"
  have ins: "ctx_input ?ctx = [example_tensor [10, 20], example_index [], example_tensor [1, 2],
      \<lparr>dtype = DT_INT64, shape = [], flat = [11]\<rparr>]"
    by (simp add: example_grad_context_def example_context_def)
  have a: "NumElements (ctx_input ?ctx ! 0) > 0"
    unfolding ins by (simp add: NumElements_def example_tensor_def)
  have b: "NumElements (ctx_input ?ctx ! 1) = 0"
    unfolding ins by (simp add: NumElements_def example_index_def)
  from C10_empty_index_invalid_argument [OF a b, of example_runtime "Done 11"
      "\<lparr>available_batches = [], available_tensors = [], desired_tensor_to_batch_map = []\<rparr>"]
  show ?thesis unfolding ins by (simp add: keys_def)
qed

end
